theory Spec2Isabelle
  imports Main "HOL-Library.Word"
begin

section \<open>Data model of the consumer\<close>

text \<open>
  The consumer of the repository (the second Go file concatenated into
  \<^verbatim>\<open>src/delete_topics_response.go\<close>) is embedded function by function.
  Go's \<^verbatim>\<open>int32\<close> and \<^verbatim>\<open>int64\<close> are words of that width: \<open>+\<close> and \<open>*\<close> wrap,
  and every comparison of the source is a signed one, written \<open>sint a < sint b\<close>.
  A \<^verbatim>\<open>time.Time\<close> and a \<^verbatim>\<open>time.Duration\<close> are integers (nanoseconds), a byte
  slice is a string.
\<close>

type_synonym int32 = "32 word"
type_synonym int64 = "64 word"

text \<open>
  The error values the consumer compares against, as the source names them;
  \<open>ErrOther\<close> stands for every other error value (another \<^verbatim>\<open>KError\<close>, a
  \<^verbatim>\<open>fmt.Errorf\<close> value, a decoding error). \<^verbatim>\<open>errors.Is\<close> is equality on these values.
\<close>

datatype error =
    ErrNoError
  | ErrOffsetOutOfRange
  | ErrUnknownTopicOrPartition
  | ErrNotLeaderForPartition
  | ErrLeaderNotAvailable
  | ErrReplicaNotAvailable
  | ErrFencedLeaderEpoch
  | ErrUnknownLeaderEpoch
  | ErrMessageTooLarge
  | ErrIncompleteResponse
  | errTimedOut
  | ErrOther string

datatype IsolationLevel = ReadUncommitted | ReadCommitted

text \<open>A \<^verbatim>\<open>KafkaVersion\<close> is \<^verbatim>\<open>[4]uint\<close>.\<close>

type_synonym KafkaVersion = "nat \<times> nat \<times> nat \<times> nat"

text \<open>
  The fields of \<^verbatim>\<open>Config\<close> that the consumer reads. \<open>MaxResponseSize\<close> is a
  package variable of the repository whose declaration is not among the sources; it is
  carried here as a parameter.
\<close>

record Config =
  Fetch_Min :: int32
  Fetch_Default :: int32
  Fetch_Max :: int32
  MaxWaitTime :: int
  IsolationLevel :: IsolationLevel
  Return_Errors :: bool
  RackID :: string
  Version :: KafkaVersion
  MaxResponseSize :: int32

record ConsumerMessage =
  cm_Headers :: "(string \<times> string) list"
  cm_Timestamp :: int
  cm_BlockTimestamp :: int
  cm_Key :: string
  cm_Value :: string
  cm_Topic :: string
  cm_Partition :: int32
  cm_Offset :: int64

record ConsumerError =
  ce_Topic :: string
  ce_Partition :: int32
  ce_Err :: error

text \<open>
  The types of the wire format are declared outside the sources at hand; each is a
  record of the fields that the consumer reads. Where the consumer calls a method
  whose body is not among the sources, the value the method returns is a field of the
  record (a parameter of the model), named after the method.
\<close>

record BatchRecord =
  rec_OffsetDelta :: int64
  rec_TimestampDelta :: int
  rec_Key :: string
  rec_Value :: string
  rec_Headers :: "(string \<times> string) list"

record RecordBatch =
  FirstOffset :: int64
  LastOffset :: int64  \<comment> \<open>the value of \<^verbatim>\<open>batch.LastOffset()\<close>\<close>
  FirstTimestamp :: int
  MaxTimestamp :: int
  LogAppendTime :: bool
  ProducerID :: int64
  IsTransactional :: bool
  Records :: "BatchRecord list"

record Message =
  msg_Version :: "8 word"
  msg_Timestamp :: int
  msg_LogAppendTime :: bool
  msg_Key :: string
  msg_Value :: string

record InnerMessage =
  im_Offset :: int64
  im_Msg :: Message

record MessageBlock =
  mb_Offset :: int64
  mb_Msg :: Message
  mb_Messages :: "InnerMessage list"  \<comment> \<open>the value of \<^verbatim>\<open>msgBlock.Messages()\<close>\<close>

type_synonym MessageSet = "MessageBlock list"

datatype ControlRecordType = ControlRecordAbort | ControlRecordCommit | ControlRecordUnknown

record DefaultRecords =
  dr_RecordBatch :: RecordBatch
  dr_isControl :: "error + bool"  \<comment> \<open>the value of \<^verbatim>\<open>records.isControl()\<close>\<close>
  dr_getControlRecord :: "error + ControlRecordType"
    \<comment> \<open>the value of \<^verbatim>\<open>records.getControlRecord()\<close>: an error, or the record's \<^verbatim>\<open>Type\<close>\<close>

text \<open>
  \<^verbatim>\<open>Records\<close> by its \<^verbatim>\<open>recordsType\<close>: a legacy message set, a default record
  batch, or any other value of the tag.
\<close>

datatype Records =
    legacyRecords MessageSet
  | defaultRecords DefaultRecords
  | unknownRecords

record AbortedTransaction =
  atx_ProducerID :: int64
  atx_FirstOffset :: int64

record FetchResponseBlock =
  Err :: error
  HighWaterMarkOffset :: int64
  PreferredReadReplica :: int32
  recordsNextOffset :: "int64 option"
  getAbortedTransactions :: "AbortedTransaction list"
    \<comment> \<open>the value of \<^verbatim>\<open>block.getAbortedTransactions()\<close>\<close>
  RecordsSet :: "Records list"
  numRecords :: "error + int"  \<comment> \<open>the value of \<^verbatim>\<open>block.numRecords()\<close>\<close>
  isPartial :: "error + bool"  \<comment> \<open>the value of \<^verbatim>\<open>block.isPartial()\<close>\<close>

text \<open>
  \<^verbatim>\<open>Blocks\<close> is \<^verbatim>\<open>map[string]map[int32]*FetchResponseBlock\<close>: an association list
  per level, read with \<open>map_of\<close>.
\<close>

record FetchResponse =
  ThrottleTime :: int
  Blocks :: "(string \<times> (int32 \<times> FetchResponseBlock) list) list"

text \<open>The events on a subscription's \<^verbatim>\<open>trigger\<close> channel.\<close>

datatype trigger_event = TriggerSend | TriggerClose

text \<open>
  The fields of \<^verbatim>\<open>partitionConsumer\<close> that the fetch pipeline reads and writes.
  The \<^verbatim>\<open>errors\<close> channel, the logger and the \<^verbatim>\<open>trigger\<close> channel are the lists
  of what was sent to them, oldest first.
\<close>

record partitionConsumer =
  conf :: Config
  topic :: string
  partition :: int32
  highWaterMarkOffset :: int64
  leaderEpoch :: int32
  preferredReadReplica :: int32
  responseResult :: "error option"
  fetchSize :: int32
  offset :: int64
  paused :: int32
  errors :: "ConsumerError list"
  logged :: "ConsumerError list"
  trigger :: "trigger_event list"

text \<open>
  Modelled from the spec: the constant \<^verbatim>\<open>invalidPreferredReplicaID\<close> is declared
  outside the sources; it is the sentinel meaning "use the leader", a negative replica
  id (\<^verbatim>\<open>preferredBroker\<close> tests \<^verbatim>\<open>preferredReadReplica >= 0\<close>).
\<close>

definition invalidPreferredReplicaID :: int32 where
  "invalidPreferredReplicaID = - 1"

text \<open>Go's \<^verbatim>\<open>math.MaxInt32\<close>.\<close>

definition MaxInt32 :: int32 where
  "MaxInt32 = 2147483647"

section \<open>The partition consumer\<close>

definition sendError :: "partitionConsumer \<Rightarrow> error \<Rightarrow> partitionConsumer" where
  "sendError child err =
     (let cErr = \<lparr>ce_Topic = topic child, ce_Partition = partition child, ce_Err = err\<rparr>
      in if Return_Errors (conf child)
         then child\<lparr>errors := errors child @ [cErr]\<rparr>
         else child\<lparr>logged := logged child @ [cErr]\<rparr>)"

subsection \<open>parseMessages\<close>

text \<open>
  The inner loop of \<^verbatim>\<open>parseMessages\<close> over \<^verbatim>\<open>msgBlock.Messages()\<close>. The index
  \<^verbatim>\<open>len(msgBlock.Messages())-1\<close> is read only inside the loop, where the slice is
  not empty.
\<close>

fun parseMessages_inner ::
  "partitionConsumer \<Rightarrow> MessageBlock \<Rightarrow> InnerMessage list \<Rightarrow> ConsumerMessage list
     \<Rightarrow> partitionConsumer \<times> ConsumerMessage list" where
  "parseMessages_inner child msgBlock [] messages = (child, messages)"
| "parseMessages_inner child msgBlock (msg # msgs) messages =
     (let v1 = (1 \<le> sint (msg_Version (im_Msg msg)));
          off = (if v1
                 then im_Offset msg + (mb_Offset msgBlock - im_Offset (last (mb_Messages msgBlock)))
                 else im_Offset msg);
          timestamp = (if v1 \<and> msg_LogAppendTime (im_Msg msg)
                       then msg_Timestamp (mb_Msg msgBlock)
                       else msg_Timestamp (im_Msg msg))
      in if sint off < sint (offset child)
         then parseMessages_inner child msgBlock msgs messages
         else parseMessages_inner (child\<lparr>offset := off + 1\<rparr>) msgBlock msgs
                (messages @
                 [\<lparr>cm_Headers = [], cm_Timestamp = timestamp,
                   cm_BlockTimestamp = msg_Timestamp (mb_Msg msgBlock),
                   cm_Key = msg_Key (im_Msg msg), cm_Value = msg_Value (im_Msg msg),
                   cm_Topic = topic child, cm_Partition = partition child,
                   cm_Offset = off\<rparr>]))"

fun parseMessages_outer ::
  "partitionConsumer \<Rightarrow> MessageBlock list \<Rightarrow> ConsumerMessage list
     \<Rightarrow> partitionConsumer \<times> ConsumerMessage list" where
  "parseMessages_outer child [] messages = (child, messages)"
| "parseMessages_outer child (msgBlock # rest) messages =
     (case parseMessages_inner child msgBlock (mb_Messages msgBlock) messages of
        (child', messages') \<Rightarrow> parseMessages_outer child' rest messages')"

text \<open>\<^verbatim>\<open>parseMessages\<close> always returns a nil error: the result is the list.\<close>

definition parseMessages ::
  "partitionConsumer \<Rightarrow> MessageSet \<Rightarrow> partitionConsumer \<times> ConsumerMessage list" where
  "parseMessages child msgSet =
     (case parseMessages_outer child msgSet [] of
        (child', messages) \<Rightarrow>
          if messages = [] then (child'\<lparr>offset := offset child' + 1\<rparr>, messages)
          else (child', messages))"

subsection \<open>parseRecords\<close>

fun parseRecords_loop ::
  "partitionConsumer \<Rightarrow> RecordBatch \<Rightarrow> BatchRecord list \<Rightarrow> ConsumerMessage list
     \<Rightarrow> partitionConsumer \<times> ConsumerMessage list" where
  "parseRecords_loop child batch [] messages = (child, messages)"
| "parseRecords_loop child batch (r # recs) messages =
     (let off = FirstOffset batch + rec_OffsetDelta r
      in if sint off < sint (offset child)
         then parseRecords_loop child batch recs messages
         else parseRecords_loop (child\<lparr>offset := off + 1\<rparr>) batch recs
                (messages @
                 [\<lparr>cm_Headers = rec_Headers r,
                   cm_Timestamp = (if LogAppendTime batch then MaxTimestamp batch
                                   else FirstTimestamp batch + rec_TimestampDelta r),
                   cm_BlockTimestamp = 0,
                   cm_Key = rec_Key r, cm_Value = rec_Value r,
                   cm_Topic = topic child, cm_Partition = partition child,
                   cm_Offset = off\<rparr>]))"

text \<open>\<^verbatim>\<open>parseRecords\<close> always returns a nil error: the result is the list.\<close>

definition parseRecords ::
  "partitionConsumer \<Rightarrow> RecordBatch \<Rightarrow> partitionConsumer \<times> ConsumerMessage list" where
  "parseRecords child batch =
     (case parseRecords_loop child batch (Records batch) [] of
        (child', messages) \<Rightarrow>
          if messages = [] then (child'\<lparr>offset := offset child' + 1\<rparr>, messages)
          else (child', messages))"

subsection \<open>parseResponse\<close>

text \<open>
  Modelled from the spec: \<^verbatim>\<open>FetchResponse.GetBlock\<close> is not among the sources. By
  the spec's contract of the fetch port (\<^verbatim>\<open>blocks[topic][partition]\<close>) it reads the
  block of a topic and partition, and there is none when either key is absent.
\<close>

definition GetBlock :: "FetchResponse \<Rightarrow> string \<Rightarrow> int32 \<Rightarrow> FetchResponseBlock option" where
  "GetBlock response t p =
     (case map_of (Blocks response) t of
        None \<Rightarrow> None
      | Some partitions \<Rightarrow> map_of partitions p)"

text \<open>
  The loop that consumes the pending aborted transactions up to the last offset of the
  current batch. Go's \<^verbatim>\<open>range\<close> walks the slice as it was when the loop started, and
  every iteration that does not break pops the head of the pending slice, so the walked
  slice and the pending slice shrink together.
\<close>

fun consumeAborted ::
  "int64 \<Rightarrow> AbortedTransaction list \<Rightarrow> int64 set \<Rightarrow> int64 set \<times> AbortedTransaction list" where
  "consumeAborted lastOffset [] abortedProducerIDs = (abortedProducerIDs, [])"
| "consumeAborted lastOffset (txn # txns) abortedProducerIDs =
     (if sint lastOffset < sint (atx_FirstOffset txn)
      then (abortedProducerIDs, txn # txns)
      else consumeAborted lastOffset txns (insert (atx_ProducerID txn) abortedProducerIDs))"

text \<open>
  The loop of \<^verbatim>\<open>parseResponse\<close> over \<^verbatim>\<open>block.RecordsSet\<close>. Its state is the
  subscription, the set \<^verbatim>\<open>abortedProducerIDs\<close>, the pending \<^verbatim>\<open>abortedTransactions\<close>
  and the messages collected so far; it ends with the messages or with the error of an
  early return. The set and the pending list are returned as well, so that they can be
  observed after any prefix of the batches.
\<close>

fun parseRecordsSet ::
  "partitionConsumer \<Rightarrow> Records list \<Rightarrow> int64 set \<Rightarrow> AbortedTransaction list
     \<Rightarrow> ConsumerMessage list
     \<Rightarrow> partitionConsumer \<times> int64 set \<times> AbortedTransaction list \<times> (error + ConsumerMessage list)"
  where
  "parseRecordsSet child [] abortedProducerIDs abortedTransactions messages =
     (child, abortedProducerIDs, abortedTransactions, Inr messages)"
| "parseRecordsSet child (legacyRecords msgSet # rest) abortedProducerIDs abortedTransactions messages =
     (case parseMessages child msgSet of
        (child', messageSetMessages) \<Rightarrow>
          parseRecordsSet child' rest abortedProducerIDs abortedTransactions
            (messages @ messageSetMessages))"
| "parseRecordsSet child (defaultRecords records # rest) abortedProducerIDs abortedTransactions messages =
     (case consumeAborted (LastOffset (dr_RecordBatch records)) abortedTransactions abortedProducerIDs of
        (aborted', pending') \<Rightarrow>
     (case parseRecords child (dr_RecordBatch records) of
        (child', recordBatchMessages) \<Rightarrow>
     (case dr_isControl records of
        Inl err \<Rightarrow>
          if IsolationLevel (conf child') = ReadCommitted
          then (child', aborted', pending', Inl err)
          else parseRecordsSet child' rest aborted' pending' messages
      | Inr True \<Rightarrow>
          (case dr_getControlRecord records of
             Inl err \<Rightarrow> (child', aborted', pending', Inl err)
           | Inr controlRecordType \<Rightarrow>
               parseRecordsSet child' rest
                 (if controlRecordType = ControlRecordAbort
                  then aborted' - {ProducerID (dr_RecordBatch records)}
                  else aborted')
                 pending' messages)
      | Inr False \<Rightarrow>
          if IsolationLevel (conf child') = ReadCommitted
             \<and> IsTransactional (dr_RecordBatch records)
             \<and> ProducerID (dr_RecordBatch records) \<in> aborted'
          then parseRecordsSet child' rest aborted' pending' messages
          else parseRecordsSet child' rest aborted' pending' (messages @ recordBatchMessages))))"
| "parseRecordsSet child (unknownRecords # rest) abortedProducerIDs abortedTransactions messages =
     (child, abortedProducerIDs, abortedTransactions, Inl (ErrOther ''unknown records type''))"

text \<open>
  The branch of \<^verbatim>\<open>parseResponse\<close> for a block with no records that ends in a partial
  trailing message.
\<close>

definition growFetchSize :: "partitionConsumer \<Rightarrow> partitionConsumer" where
  "growFetchSize child =
     (if 0 < sint (Fetch_Max (conf child)) \<and> fetchSize child = Fetch_Max (conf child)
      then (let child' = sendError child ErrMessageTooLarge
            in child'\<lparr>offset := offset child' + 1\<rparr>)
      else (let doubled = fetchSize child * 2;
                checked = (if sint doubled < 0 then MaxInt32 else doubled)
            in child\<lparr>fetchSize :=
                 (if 0 < sint (Fetch_Max (conf child)) \<and> sint (Fetch_Max (conf child)) < sint checked
                  then Fetch_Max (conf child) else checked)\<rparr>))"

text \<open>
  \<^verbatim>\<open>parseResponse\<close> returns the subscription as it has left it and either the error
  or the messages (Go's nil slice is the empty list). The batch-size histogram is a
  metric and is left out.
\<close>

definition parseResponse ::
  "partitionConsumer \<Rightarrow> FetchResponse \<Rightarrow> partitionConsumer \<times> (error + ConsumerMessage list)" where
  "parseResponse child response =
     (if ThrottleTime response \<noteq> 0 \<and> length (Blocks response) = 0 then (child, Inr [])
      else case GetBlock response (topic child) (partition child) of
        None \<Rightarrow> (child, Inl ErrIncompleteResponse)
      | Some block \<Rightarrow>
          if Err block \<noteq> ErrNoError then (child, Inl (Err block))
          else (case numRecords block of
            Inl err \<Rightarrow> (child, Inl err)
          | Inr nRecs \<Rightarrow>
              (let child1 = (if PreferredReadReplica block \<noteq> invalidPreferredReplicaID
                             then child\<lparr>preferredReadReplica := PreferredReadReplica block\<rparr>
                             else child)
               in if nRecs = 0
                  then (case isPartial block of
                     Inl err \<Rightarrow> (child1, Inl err)
                   | Inr partialTrailingMessage \<Rightarrow>
                       if partialTrailingMessage then (growFetchSize child1, Inr [])
                       else (case recordsNextOffset block of
                          None \<Rightarrow> (child1, Inr [])
                        | Some nextOffset \<Rightarrow>
                            if sint nextOffset \<le> sint (HighWaterMarkOffset block)
                            then (child1\<lparr>offset := nextOffset\<rparr>, Inr [])
                            else (child1, Inr [])))
                  else (let child2 = child1\<lparr>fetchSize := Fetch_Default (conf child1),
                                             highWaterMarkOffset := HighWaterMarkOffset block\<rparr>
                        in case parseRecordsSet child2 (RecordsSet block) {}
                                  (getAbortedTransactions block) [] of
                             (child3, _, _, result) \<Rightarrow> (child3, result)))))"

text \<open>
  A subscription that is fed a sequence of responses, as \<^verbatim>\<open>responseFeeder\<close> does one
  after the other: the subscription after the last one and the result of each.
\<close>

fun parseResponses ::
  "partitionConsumer \<Rightarrow> FetchResponse list
     \<Rightarrow> partitionConsumer \<times> (error + ConsumerMessage list) list" where
  "parseResponses child [] = (child, [])"
| "parseResponses child (response # rest) =
     (case parseResponse child response of
        (child', result) \<Rightarrow>
          (case parseResponses child' rest of
             (child'', results) \<Rightarrow> (child'', result # results)))"

section \<open>The broker consumer\<close>

text \<open>
  The client that a subscription asks for brokers is outside the sources: the answers of
  \<^verbatim>\<open>client.Broker\<close> and \<^verbatim>\<open>client.LeaderAndEpoch\<close> are parameters. A broker is
  its id.
\<close>

record Client =
  client_Broker :: "int32 \<Rightarrow> error + int32"
  client_LeaderAndEpoch :: "string \<Rightarrow> int32 \<Rightarrow> error + (int32 \<times> int32)"

definition preferredBroker ::
  "Client \<Rightarrow> partitionConsumer \<Rightarrow> partitionConsumer \<times> (error + (int32 \<times> int32))" where
  "preferredBroker client child =
     (if 0 \<le> sint (preferredReadReplica child)
      then (case client_Broker client (preferredReadReplica child) of
              Inr broker \<Rightarrow> (child, Inr (broker, leaderEpoch child))
            | Inl err \<Rightarrow>
                (child\<lparr>preferredReadReplica := invalidPreferredReplicaID\<rparr>,
                 client_LeaderAndEpoch client (topic child) (partition child)))
      else (child, client_LeaderAndEpoch client (topic child) (partition child)))"

record brokerConsumer =
  bc_conf :: Config  \<comment> \<open>\<^verbatim>\<open>bc.consumer.conf\<close>\<close>
  bc_broker :: int32  \<comment> \<open>\<^verbatim>\<open>bc.broker.ID()\<close>\<close>
  subscriptions :: "partitionConsumer list"

text \<open>
  The body of the loop of \<^verbatim>\<open>handleResponses\<close> for one subscription: the
  subscription as the body leaves it, and whether it is still in \<^verbatim>\<open>bc.subscriptions\<close>
  (\<open>False\<close> after \<^verbatim>\<open>delete(bc.subscriptions, child)\<close>).
\<close>

definition handleResponse ::
  "Client \<Rightarrow> int32 \<Rightarrow> partitionConsumer \<Rightarrow> partitionConsumer \<times> bool" where
  "handleResponse client brokerID child0 =
     (let result = responseResult child0;
          child = child0\<lparr>responseResult := None\<rparr>
      in case result of
           None \<Rightarrow>
             (case preferredBroker client child of
                (child', Inr (preferredBrokerID, epoch)) \<Rightarrow>
                  if brokerID \<noteq> preferredBrokerID
                  then (child'\<lparr>trigger := trigger child' @ [TriggerSend]\<rparr>, False)
                  else (child', True)
              | (child', Inl err) \<Rightarrow> (child', True))
         | Some res \<Rightarrow>
             (let child1 = child\<lparr>preferredReadReplica := invalidPreferredReplicaID\<rparr>
              in if res = errTimedOut then (child1, False)
                 else if res = ErrOffsetOutOfRange
                 then (let child2 = sendError child1 res
                       in (child2\<lparr>trigger := trigger child2 @ [TriggerClose]\<rparr>, False))
                 else if res = ErrUnknownTopicOrPartition \<or> res = ErrNotLeaderForPartition
                         \<or> res = ErrLeaderNotAvailable \<or> res = ErrReplicaNotAvailable
                         \<or> res = ErrFencedLeaderEpoch \<or> res = ErrUnknownLeaderEpoch
                 then (child1\<lparr>trigger := trigger child1 @ [TriggerSend]\<rparr>, False)
                 else (let child2 = sendError child1 res
                       in (child2\<lparr>trigger := trigger child2 @ [TriggerSend]\<rparr>, False))))"

text \<open>
  \<^verbatim>\<open>handleResponses\<close> runs the body once for every subscription of the set (the list
  is one order of Go's map iteration; the body of one subscription does not read
  another). It returns the broker consumer with the subscriptions that stay, and the
  subscriptions that were deleted from the set.
\<close>

definition handleResponses ::
  "Client \<Rightarrow> brokerConsumer \<Rightarrow> brokerConsumer \<times> partitionConsumer list" where
  "handleResponses client bc =
     (let handled = map (handleResponse client (bc_broker bc)) (subscriptions bc)
      in (bc\<lparr>subscriptions := map fst (filter snd handled)\<rparr>,
          map fst (filter (\<lambda>h. \<not> snd h) handled)))"

subsection \<open>fetchNewMessages\<close>

text \<open>
  Modelled from the spec: \<^verbatim>\<open>KafkaVersion.IsAtLeast\<close> is declared outside the sources.
  By the spec's table of broker versions ("Broker version \<open>\<ge>\<close>") a version is at
  least another when its four numbers are greater or equal in the order major, minor,
  very minor, patch.
\<close>

fun IsAtLeast :: "KafkaVersion \<Rightarrow> KafkaVersion \<Rightarrow> bool" where
  "IsAtLeast (a, b, c, d) (a', b', c', d') =
     (a' < a \<or> (a = a' \<and> (b' < b \<or> (b = b' \<and> (c' < c \<or> (c = c' \<and> d' \<le> d))))))"

text \<open>
  Modelled from the spec: the version constants \<^verbatim>\<open>V0_9_0_0\<close> to \<^verbatim>\<open>V2_3_0_0\<close> are
  declared outside the sources; they are the broker versions 0.9, 0.10.0, 0.10.1, 0.11,
  1.0, 1.1, 2.0, 2.1 and 2.3 of the spec's table, each with its four numbers.
\<close>

definition V0_9_0_0 :: KafkaVersion where "V0_9_0_0 = (0, 9, 0, 0)"
definition V0_10_0_0 :: KafkaVersion where "V0_10_0_0 = (0, 10, 0, 0)"
definition V0_10_1_0 :: KafkaVersion where "V0_10_1_0 = (0, 10, 1, 0)"
definition V0_11_0_0 :: KafkaVersion where "V0_11_0_0 = (0, 11, 0, 0)"
definition V1_0_0_0 :: KafkaVersion where "V1_0_0_0 = (1, 0, 0, 0)"
definition V1_1_0_0 :: KafkaVersion where "V1_1_0_0 = (1, 1, 0, 0)"
definition V2_0_0_0 :: KafkaVersion where "V2_0_0_0 = (2, 0, 0, 0)"
definition V2_1_0_0 :: KafkaVersion where "V2_1_0_0 = (2, 1, 0, 0)"
definition V2_3_0_0 :: KafkaVersion where "V2_3_0_0 = (2, 3, 0, 0)"

record RequestBlock =
  rb_topic :: string
  rb_partition :: int32
  rb_fetchOffset :: int64
  rb_maxBytes :: int32
  rb_leaderEpoch :: int32

record FetchRequest =
  MinBytes :: int32
  req_MaxWaitTime :: int32
  req_Version :: int
  MaxBytes :: int32
  Isolation :: IsolationLevel
  SessionID :: int32
  SessionEpoch :: int32
  req_RackID :: string
  blocks :: "RequestBlock list"

text \<open>
  The request after the version cascade of \<^verbatim>\<open>fetchNewMessages\<close>: one \<^verbatim>\<open>if\<close> after
  the other, each overwriting what the earlier ones have set. The fields that the
  source does not set have Go's zero value. Go's division truncates towards zero.
\<close>

definition versionedRequest :: "Config \<Rightarrow> FetchRequest" where
  "versionedRequest c =
     (let v = Version c;
          r0 = \<lparr>MinBytes = Fetch_Min c,
                req_MaxWaitTime = word_of_int (sgn (MaxWaitTime c) * (\<bar>MaxWaitTime c\<bar> div 1000000)),
                req_Version = 0, MaxBytes = 0, Isolation = ReadUncommitted,
                SessionID = 0, SessionEpoch = 0, req_RackID = [], blocks = []\<rparr>;
          r1 = (if IsAtLeast v V0_9_0_0 then r0\<lparr>req_Version := 1\<rparr> else r0);
          r2 = (if IsAtLeast v V0_10_0_0 then r1\<lparr>req_Version := 2\<rparr> else r1);
          r3 = (if IsAtLeast v V0_10_1_0
                then r2\<lparr>req_Version := 3, MaxBytes := MaxResponseSize c\<rparr> else r2);
          r5 = (if IsAtLeast v V0_11_0_0
                then r3\<lparr>req_Version := 5, Isolation := IsolationLevel c\<rparr> else r3);
          r6 = (if IsAtLeast v V1_0_0_0 then r5\<lparr>req_Version := 6\<rparr> else r5);
          r7 = (if IsAtLeast v V1_1_0_0
                then r6\<lparr>req_Version := 7, SessionID := 0, SessionEpoch := - 1\<rparr> else r6);
          r8 = (if IsAtLeast v V2_0_0_0 then r7\<lparr>req_Version := 8\<rparr> else r7);
          r10 = (if IsAtLeast v V2_1_0_0 then r8\<lparr>req_Version := 10\<rparr> else r8);
          r11 = (if IsAtLeast v V2_3_0_0
                 then r10\<lparr>req_Version := 11, req_RackID := RackID c\<rparr> else r10)
      in r11)"

definition IsPaused :: "partitionConsumer \<Rightarrow> bool" where
  "IsPaused child = (paused child = 1)"

text \<open>
  \<^verbatim>\<open>request.AddBlock\<close> is outside the sources: the blocks of the request are the list
  of what was added, in the order of the iteration.
\<close>

fun addBlocks :: "FetchRequest \<Rightarrow> partitionConsumer list \<Rightarrow> FetchRequest" where
  "addBlocks request [] = request"
| "addBlocks request (child # rest) =
     (if \<not> IsPaused child
      then addBlocks
             (request\<lparr>blocks := blocks request @
                [\<lparr>rb_topic = topic child, rb_partition = partition child,
                  rb_fetchOffset = offset child, rb_maxBytes = fetchSize child,
                  rb_leaderEpoch = leaderEpoch child\<rparr>]\<rparr>) rest
      else addBlocks request rest)"

text \<open>
  \<^verbatim>\<open>fetchNewMessages\<close>, with the broker's \<^verbatim>\<open>Fetch\<close> as a parameter: no response
  and no error when the request has no block, else what the broker answers.
\<close>

definition fetchNewMessages ::
  "(FetchRequest \<Rightarrow> error + FetchResponse) \<Rightarrow> brokerConsumer \<Rightarrow> error + FetchResponse option" where
  "fetchNewMessages Fetch bc =
     (let request = addBlocks (versionedRequest (bc_conf bc)) (subscriptions bc)
      in if length (blocks request) = 0 then Inr None
         else (case Fetch request of Inl err \<Rightarrow> Inl err | Inr response \<Rightarrow> Inr (Some response)))"

section \<open>The rule of the offset filter, and the inputs of the scenarios\<close>

text \<open>
  The rule for every record, as the specification words it: a record whose offset is
  below the subscription's current offset is discarded; any other record is delivered
  and the current offset becomes the record's offset plus one. \<open>delivered\<close> is the list
  of the records that are delivered, \<open>offsetAfter\<close> the current offset after the last
  record; \<open>off\<close> reads the offset of a record.
\<close>

fun delivered :: "('a \<Rightarrow> int64) \<Rightarrow> int64 \<Rightarrow> 'a list \<Rightarrow> 'a list" where
  "delivered off cur [] = []"
| "delivered off cur (r # rs) =
     (if sint (off r) < sint cur then delivered off cur rs
      else r # delivered off (off r + 1) rs)"

fun offsetAfter :: "('a \<Rightarrow> int64) \<Rightarrow> int64 \<Rightarrow> 'a list \<Rightarrow> int64" where
  "offsetAfter off cur [] = cur"
| "offsetAfter off cur (r # rs) =
     (if sint (off r) < sint cur then offsetAfter off cur rs
      else offsetAfter off (off r + 1) rs)"

text \<open>
  A list of delivered offsets is consistent with a current offset when the first is not
  below it, and the rest is consistent with the first plus one.
\<close>

fun deliveredFrom :: "int64 \<Rightarrow> int64 list \<Rightarrow> bool" where
  "deliveredFrom cur [] = True"
| "deliveredFrom cur (off # offs) = (sint cur \<le> sint off \<and> deliveredFrom (off + 1) offs)"

text \<open>The offset of a record of a batch, and the message that is built from it.\<close>

definition recordOffset :: "RecordBatch \<Rightarrow> BatchRecord \<Rightarrow> int64" where
  "recordOffset batch r = FirstOffset batch + rec_OffsetDelta r"

definition recordMessage :: "partitionConsumer \<Rightarrow> RecordBatch \<Rightarrow> BatchRecord \<Rightarrow> ConsumerMessage" where
  "recordMessage child batch r =
     \<lparr>cm_Headers = rec_Headers r,
      cm_Timestamp = (if LogAppendTime batch then MaxTimestamp batch
                      else FirstTimestamp batch + rec_TimestampDelta r),
      cm_BlockTimestamp = 0,
      cm_Key = rec_Key r, cm_Value = rec_Value r,
      cm_Topic = topic child, cm_Partition = partition child,
      cm_Offset = recordOffset batch r\<rparr>"

text \<open>
  The same for a legacy message set: its items are the inner messages of its blocks,
  each with its block, in the order of the two loops.
\<close>

definition legacyOffset :: "MessageBlock \<times> InnerMessage \<Rightarrow> int64" where
  "legacyOffset item =
     (case item of (msgBlock, msg) \<Rightarrow>
        if 1 \<le> sint (msg_Version (im_Msg msg))
        then im_Offset msg + (mb_Offset msgBlock - im_Offset (last (mb_Messages msgBlock)))
        else im_Offset msg)"

definition legacyMessage :: "partitionConsumer \<Rightarrow> MessageBlock \<times> InnerMessage \<Rightarrow> ConsumerMessage" where
  "legacyMessage child item =
     (case item of (msgBlock, msg) \<Rightarrow>
        \<lparr>cm_Headers = [],
         cm_Timestamp = (if 1 \<le> sint (msg_Version (im_Msg msg)) \<and> msg_LogAppendTime (im_Msg msg)
                         then msg_Timestamp (mb_Msg msgBlock)
                         else msg_Timestamp (im_Msg msg)),
         cm_BlockTimestamp = msg_Timestamp (mb_Msg msgBlock),
         cm_Key = msg_Key (im_Msg msg), cm_Value = msg_Value (im_Msg msg),
         cm_Topic = topic child, cm_Partition = partition child,
         cm_Offset = legacyOffset item\<rparr>)"

definition legacyItems :: "MessageSet \<Rightarrow> (MessageBlock \<times> InnerMessage) list" where
  "legacyItems msgSet =
     concat (map (\<lambda>msgBlock. map (Pair msgBlock) (mb_Messages msgBlock)) msgSet)"

text \<open>
  The inputs of the specification's scenarios: a configuration with a default fetch
  size of 1024 and a maximum of 8192 under \<open>ReadCommitted\<close>, a subscription of partition
  0 of topic \<open>t\<close> at a given offset, a batch of records given by their offset deltas, and
  a response with one block for that partition.
\<close>

definition scenario_conf :: Config where
  "scenario_conf =
     \<lparr>Fetch_Min = 1, Fetch_Default = 1024, Fetch_Max = 8192, MaxWaitTime = 250000000,
      IsolationLevel = ReadCommitted, Return_Errors = True, RackID = [],
      Version = (2, 3, 0, 0), MaxResponseSize = 104857600\<rparr>"

definition scenario_child :: "int64 \<Rightarrow> partitionConsumer" where
  "scenario_child off =
     \<lparr>conf = scenario_conf, topic = ''t'', partition = 0, highWaterMarkOffset = 0,
      leaderEpoch = - 1, preferredReadReplica = - 1, responseResult = None,
      fetchSize = 1024, offset = off, paused = 0, errors = [], logged = [], trigger = []\<rparr>"

definition scenario_record :: "int64 \<Rightarrow> BatchRecord" where
  "scenario_record delta =
     \<lparr>rec_OffsetDelta = delta, rec_TimestampDelta = 0, rec_Key = [], rec_Value = [],
      rec_Headers = []\<rparr>"

definition scenario_batch :: "int64 \<Rightarrow> int64 \<Rightarrow> int64 \<Rightarrow> bool \<Rightarrow> int64 list \<Rightarrow> RecordBatch" where
  "scenario_batch first lastOff producer transactional deltas =
     \<lparr>FirstOffset = first, LastOffset = lastOff, FirstTimestamp = 0, MaxTimestamp = 0,
      LogAppendTime = False, ProducerID = producer, IsTransactional = transactional,
      Records = map scenario_record deltas\<rparr>"

definition scenario_data :: "RecordBatch \<Rightarrow> Records" where
  "scenario_data batch =
     defaultRecords \<lparr>dr_RecordBatch = batch, dr_isControl = Inr False,
                     dr_getControlRecord = Inr ControlRecordUnknown\<rparr>"

definition scenario_control :: "RecordBatch \<Rightarrow> ControlRecordType \<Rightarrow> Records" where
  "scenario_control batch t =
     defaultRecords \<lparr>dr_RecordBatch = batch, dr_isControl = Inr True,
                     dr_getControlRecord = Inr t\<rparr>"

definition scenario_block ::
  "Records list \<Rightarrow> AbortedTransaction list \<Rightarrow> int \<Rightarrow> bool \<Rightarrow> int64 option \<Rightarrow> FetchResponseBlock" where
  "scenario_block recordsSet aborted n partialTrailing nextOffset =
     \<lparr>Err = ErrNoError, HighWaterMarkOffset = 1000, PreferredReadReplica = - 1,
      recordsNextOffset = nextOffset, getAbortedTransactions = aborted,
      RecordsSet = recordsSet, numRecords = Inr n, isPartial = Inr partialTrailing\<rparr>"

definition scenario_response :: "FetchResponseBlock \<Rightarrow> FetchResponse" where
  "scenario_response block = \<lparr>ThrottleTime = 0, Blocks = [(''t'', [(0, block)])]\<rparr>"

text \<open>
  A response whose block for the subscription has no error and no records and ends in a
  partial trailing message. (A throttled response without blocks has no such block.)
\<close>

definition partialTrailing :: "partitionConsumer \<Rightarrow> FetchResponse \<Rightarrow> bool" where
  "partialTrailing child response =
     (case GetBlock response (topic child) (partition child) of
        None \<Rightarrow> False
      | Some block \<Rightarrow>
          Err block = ErrNoError \<and> numRecords block = Inr 0 \<and> isPartial block = Inr True)"

text \<open>The error value that \<^verbatim>\<open>sendError\<close> builds for a subscription.\<close>

definition consumerError :: "partitionConsumer \<Rightarrow> error \<Rightarrow> ConsumerError" where
  "consumerError child err =
     \<lparr>ce_Topic = topic child, ce_Partition = partition child, ce_Err = err\<rparr>"

text \<open>
  Everything that \<^verbatim>\<open>sendError\<close> has surfaced for a subscription, on the channel or
  through the logger.
\<close>

definition surfaced :: "partitionConsumer \<Rightarrow> ConsumerError list \<times> ConsumerError list" where
  "surfaced child = (errors child, logged child)"

definition surfacedWith :: "partitionConsumer \<Rightarrow> error \<Rightarrow> ConsumerError list \<times> ConsumerError list" where
  "surfacedWith child err =
     (if Return_Errors (conf child)
      then (errors child @ [consumerError child err], logged child)
      else (errors child, logged child @ [consumerError child err]))"

text \<open>The response of scenario S2: no records, and a partial trailing message.\<close>

definition scenario_partial :: FetchResponse where
  "scenario_partial = scenario_response (scenario_block [] [] 0 True None)"

text \<open>
  The block errors that the specification lists as silently retriable.
\<close>

definition silentRetriable :: "error \<Rightarrow> bool" where
  "silentRetriable e =
     (e = ErrUnknownTopicOrPartition \<or> e = ErrNotLeaderForPartition
      \<or> e = ErrLeaderNotAvailable \<or> e = ErrReplicaNotAvailable
      \<or> e = ErrFencedLeaderEpoch \<or> e = ErrUnknownLeaderEpoch)"

text \<open>
  The subscription that the loop body of \<^verbatim>\<open>handleResponses\<close> starts from once it has
  taken a result that is not nil: the result is cleared and the replica preference
  discarded.
\<close>

definition resultTaken :: "partitionConsumer \<Rightarrow> partitionConsumer" where
  "resultTaken child =
     child\<lparr>responseResult := None, preferredReadReplica := invalidPreferredReplicaID\<rparr>"

text \<open>A client for the scenarios: no broker is found by id, broker 1 leads at epoch 0.\<close>

definition scenario_client :: Client where
  "scenario_client =
     \<lparr>client_Broker = (\<lambda>id. Inl (ErrOther ''no broker'')),
      client_LeaderAndEpoch = (\<lambda>t p. Inr (1, 0))\<rparr>"



text \<open>
  The aborted transactions that begin at or before a last offset, as the specification
  words the consumption of the pending list.
\<close>

definition beginsBy :: "int64 \<Rightarrow> AbortedTransaction \<Rightarrow> bool" where
  "beginsBy lastOffset txn = (sint (atx_FirstOffset txn) \<le> sint lastOffset)"

text \<open>
  The hypotheses under which the offset of a subscription does not decrease. The offsets
  of the records of a block are in range when they are below \<open>2^62\<close>; a response is in
  range for a subscription when the subscription's offset is below \<open>2^62\<close>, the block for
  the subscription has fewer than \<open>2^62\<close> batches with offsets in range (so that no
  increment of an \<^verbatim>\<open>int64\<close> wraps), and the next offset of the records, where
  \<^verbatim>\<open>parseResponse\<close> assigns it, is not below the subscription's offset.
\<close>

fun recordsInRange :: "Records \<Rightarrow> bool" where
  "recordsInRange (legacyRecords msgSet) =
     list_all (\<lambda>item. sint (legacyOffset item) < 4611686018427387904) (legacyItems msgSet)"
| "recordsInRange (defaultRecords records) =
     list_all (\<lambda>r. sint (recordOffset (dr_RecordBatch records) r) < 4611686018427387904)
       (Records (dr_RecordBatch records))"
| "recordsInRange unknownRecords = True"

definition nextOffsetAssigned :: "FetchResponseBlock \<Rightarrow> int64 \<Rightarrow> bool" where
  "nextOffsetAssigned block nextOffset =
     (numRecords block = Inr 0 \<and> isPartial block = Inr False
      \<and> recordsNextOffset block = Some nextOffset
      \<and> sint nextOffset \<le> sint (HighWaterMarkOffset block))"

definition responseInRange :: "partitionConsumer \<Rightarrow> FetchResponse \<Rightarrow> bool" where
  "responseInRange child response =
     (sint (offset child) < 4611686018427387904
      \<and> (case GetBlock response (topic child) (partition child) of
           None \<Rightarrow> True
         | Some block \<Rightarrow>
             int (length (RecordsSet block)) < 4611686018427387904
             \<and> list_all recordsInRange (RecordsSet block)
             \<and> (case recordsNextOffset block of
                  None \<Rightarrow> True
                | Some nextOffset \<Rightarrow>
                    if nextOffsetAssigned block nextOffset
                    then sint (offset child) \<le> sint nextOffset else True)))"

text \<open>
  A run of responses is in range when every response is in range for the subscription
  as the responses before it have left it. \<open>offsetTrace\<close> lists the offset before the
  first response and after each response.
\<close>

fun runInRange :: "partitionConsumer \<Rightarrow> FetchResponse list \<Rightarrow> bool" where
  "runInRange child [] = True"
| "runInRange child (response # rest) =
     (responseInRange child response \<and> runInRange (fst (parseResponse child response)) rest)"

fun offsetTrace :: "partitionConsumer \<Rightarrow> FetchResponse list \<Rightarrow> int64 list" where
  "offsetTrace child [] = [offset child]"
| "offsetTrace child (response # rest) =
     offset child # offsetTrace (fst (parseResponse child response)) rest"

text \<open>
  A list of messages lies between two offsets when the offsets of the messages are in
  strictly ascending order, none is below the first offset and each is below the
  second.
\<close>

definition deliveredBetween :: "int64 \<Rightarrow> int64 \<Rightarrow> ConsumerMessage list \<Rightarrow> bool" where
  "deliveredBetween before after messages =
     (sorted_wrt (<) (map (\<lambda>m. sint (cm_Offset m)) messages)
      \<and> list_all (\<lambda>m. sint before \<le> sint (cm_Offset m) \<and> sint (cm_Offset m) < sint after)
            messages)"

text \<open>
  The subscription with which \<^verbatim>\<open>parseResponse\<close> enters the loop over the records of
  a block that has records: the preferred replica of the block is recorded, the fetch
  size is reset to the default and the high water mark is stored.
\<close>

definition recordsChild :: "partitionConsumer \<Rightarrow> FetchResponseBlock \<Rightarrow> partitionConsumer" where
  "recordsChild child block =
     child\<lparr>preferredReadReplica :=
             (if PreferredReadReplica block \<noteq> invalidPreferredReplicaID
              then PreferredReadReplica block else preferredReadReplica child),
           fetchSize := Fetch_Default (conf child),
           highWaterMarkOffset := HighWaterMarkOffset block\<rparr>"

text \<open>
  A legacy message of format version 0 for the scenarios, and the block that holds one
  such message at a given offset.
\<close>

definition scenario_message :: Message where
  "scenario_message =
     \<lparr>msg_Version = 0, msg_Timestamp = 0, msg_LogAppendTime = False, msg_Key = [],
      msg_Value = []\<rparr>"

definition scenario_message_block :: "int64 \<Rightarrow> MessageBlock" where
  "scenario_message_block off =
     \<lparr>mb_Offset = off, mb_Msg = scenario_message,
      mb_Messages = [\<lparr>im_Offset = off, im_Msg = scenario_message\<rparr>]\<rparr>"

section \<open>Properties\<close>

subsection \<open>The offset filter\<close>

lemma delivered_append:
  "delivered off cur (xs @ ys) = delivered off cur xs @ delivered off (offsetAfter off cur xs) ys"
  by (induction xs arbitrary: cur) simp_all

lemma offsetAfter_append:
  "offsetAfter off cur (xs @ ys) = offsetAfter off (offsetAfter off cur xs) ys"
  by (induction xs arbitrary: cur) simp_all

lemma offsetAfter_last:
  "offsetAfter off cur rs =
     (if delivered off cur rs = [] then cur else off (last (delivered off cur rs)) + 1)"
  by (induction rs arbitrary: cur) simp_all

lemma delivered_deliveredFrom:
  "deliveredFrom cur (map off (delivered off cur rs))"
  by (induction rs arbitrary: cur) simp_all

lemma recordMessage_offset_upd:
  "recordMessage (child\<lparr>offset := x\<rparr>) batch r = recordMessage child batch r"
  by (simp add: recordMessage_def)

lemma legacyMessage_offset_upd:
  "legacyMessage (child\<lparr>offset := x\<rparr>) item = legacyMessage child item"
  by (simp add: legacyMessage_def)

lemma cm_Offset_recordMessage:
  "cm_Offset \<circ> recordMessage child batch = recordOffset batch"
  by (simp add: fun_eq_iff recordMessage_def)

lemma cm_Offset_legacyMessage:
  "cm_Offset \<circ> legacyMessage child = legacyOffset"
  by (simp add: fun_eq_iff legacyMessage_def split_def)

lemma parseRecords_loop_filter:
  "parseRecords_loop child batch recs acc =
     (child\<lparr>offset := offsetAfter (recordOffset batch) (offset child) recs\<rparr>,
      acc @ map (recordMessage child batch) (delivered (recordOffset batch) (offset child) recs))"
proof (induction recs arbitrary: child acc)
  case Nil
  then show ?case by simp
next
  case (Cons r recs)
  show ?case
  proof (cases "sint (recordOffset batch r) < sint (offset child)")
    case True
    then show ?thesis using Cons.IH [of child acc]
      by (simp add: recordOffset_def Let_def)
  next
    case False
    then show ?thesis
      using Cons.IH [of "child\<lparr>offset := recordOffset batch r + 1\<rparr>"]
      by (simp add: recordOffset_def recordMessage_def Let_def)
  qed
qed

lemma parseMessages_inner_filter:
  "parseMessages_inner child msgBlock msgs acc =
     (child\<lparr>offset := offsetAfter legacyOffset (offset child) (map (Pair msgBlock) msgs)\<rparr>,
      acc @ map (legacyMessage child)
              (delivered legacyOffset (offset child) (map (Pair msgBlock) msgs)))"
proof (induction msgs arbitrary: child acc)
  case Nil
  then show ?case by simp
next
  case (Cons msg msgs)
  show ?case
  proof (cases "sint (legacyOffset (msgBlock, msg)) < sint (offset child)")
    case True
    then show ?thesis using Cons.IH [of child acc]
      by (simp add: legacyOffset_def Let_def)
  next
    case False
    then show ?thesis
      using Cons.IH [of "child\<lparr>offset := legacyOffset (msgBlock, msg) + 1\<rparr>"]
      by (simp add: legacyOffset_def legacyMessage_def Let_def)
  qed
qed

lemma parseMessages_outer_filter:
  "parseMessages_outer child msgSet acc =
     (child\<lparr>offset := offsetAfter legacyOffset (offset child) (legacyItems msgSet)\<rparr>,
      acc @ map (legacyMessage child) (delivered legacyOffset (offset child) (legacyItems msgSet)))"
proof (induction msgSet arbitrary: child acc)
  case Nil
  then show ?case by (simp add: legacyItems_def)
next
  case (Cons msgBlock rest)
  have items: "legacyItems (msgBlock # rest) =
      map (Pair msgBlock) (mb_Messages msgBlock) @ legacyItems rest"
    by (simp add: legacyItems_def)
  show ?case
    by (simp add: parseMessages_inner_filter Cons.IH items delivered_append offsetAfter_append
        legacyMessage_offset_upd)
qed

text \<open>
  What \<^verbatim>\<open>parseRecords\<close> and \<^verbatim>\<open>parseMessages\<close> return, in terms of the rule: the
  delivered records as messages, and the subscription with its offset after the last
  record, or one further when nothing was delivered.
\<close>

lemma parseRecords_eq:
  "parseRecords child batch =
     (child\<lparr>offset :=
        (if delivered (recordOffset batch) (offset child) (Records batch) = []
         then offset child + 1
         else offsetAfter (recordOffset batch) (offset child) (Records batch))\<rparr>,
      map (recordMessage child batch)
        (delivered (recordOffset batch) (offset child) (Records batch)))"
  by (simp add: parseRecords_def parseRecords_loop_filter offsetAfter_last)

lemma parseMessages_eq:
  "parseMessages child msgSet =
     (child\<lparr>offset :=
        (if delivered legacyOffset (offset child) (legacyItems msgSet) = []
         then offset child + 1
         else offsetAfter legacyOffset (offset child) (legacyItems msgSet))\<rparr>,
      map (legacyMessage child) (delivered legacyOffset (offset child) (legacyItems msgSet)))"
  by (simp add: parseMessages_def parseMessages_outer_filter offsetAfter_last)

lemmas scenario_defs =
  scenario_conf_def scenario_child_def scenario_record_def scenario_batch_def
  scenario_data_def scenario_control_def scenario_block_def scenario_response_def

subsection \<open>The growth of the fetch size\<close>


lemma sint_double:
  fixes fs :: int32
  assumes "0 \<le> sint fs"
  shows "sint (fs * 2) = (if 2 * sint fs < 2 ^ 31 then 2 * sint fs else 2 * sint fs - 2 ^ 32)"
proof -
  have ub: "sint fs < 2 ^ 31" using sint_lt [of fs] by simp
  have "sint (fs * 2) = signed_take_bit 31 (sint fs * 2)"
    by (simp add: sint_word_ariths)
  also have "\<dots> = take_bit 32 (sint fs * 2 + 2 ^ 31) - 2 ^ 31"
    by (simp add: signed_take_bit_eq_take_bit_shift)
  also have "\<dots> = (sint fs * 2 + 2 ^ 31) mod 2 ^ 32 - 2 ^ 31"
    by (simp add: take_bit_eq_mod)
  finally have e: "sint (fs * 2) = (sint fs * 2 + 2 ^ 31) mod 2 ^ 32 - 2 ^ 31" .
  show ?thesis
  proof (cases "2 * sint fs < 2 ^ 31")
    case True
    then have "(sint fs * 2 + 2 ^ 31) mod 2 ^ 32 = sint fs * 2 + 2 ^ 31"
      using assms by (intro mod_pos_pos_trivial) auto
    then show ?thesis using e True by simp
  next
    case False
    then have "(sint fs * 2 + 2 ^ 31) mod 2 ^ 32 = sint fs * 2 + 2 ^ 31 - 2 ^ 32"
    proof -
      have "(sint fs * 2 + 2 ^ 31) mod 2 ^ 32 = (sint fs * 2 + 2 ^ 31 - 2 ^ 32) mod 2 ^ 32"
        by (metis minus_mod_self2)
      also have "\<dots> = sint fs * 2 + 2 ^ 31 - 2 ^ 32"
        using ub False by (intro mod_pos_pos_trivial) auto
      finally show ?thesis .
    qed
    then show ?thesis using e False by simp
  qed
qed


lemma double_not_max: "(fs :: int32) * 2 \<noteq> MaxInt32"
proof
  assume "fs * 2 = MaxInt32"
  then have "even (MaxInt32 :: int32)" by (metis even_mult_iff even_numeral)
  then show False by (simp add: MaxInt32_def)
qed


lemma sint_MaxInt32: "sint MaxInt32 = 2147483647"
  by (simp add: MaxInt32_def)

lemma parseResponse_partial:
  assumes "partialTrailing child response"
  shows "\<exists>r. parseResponse child response =
           (growFetchSize (child\<lparr>preferredReadReplica := r\<rparr>), Inr [])"
proof -
  from assms obtain block where b: "GetBlock response (topic child) (partition child) = Some block"
    and e: "Err block = ErrNoError" and n: "numRecords block = Inr 0"
    and p: "isPartial block = Inr True"
    by (auto simp: partialTrailing_def split: option.splits)
  from b have nb: "Blocks response \<noteq> []"
    by (auto simp: GetBlock_def)
  show ?thesis
  proof (cases "PreferredReadReplica block \<noteq> invalidPreferredReplicaID")
    case True
    then have "parseResponse child response =
        (growFetchSize (child\<lparr>preferredReadReplica := PreferredReadReplica block\<rparr>), Inr [])"
      using b e n p nb by (simp add: parseResponse_def Let_def)
    then show ?thesis by blast
  next
    case False
    then have "parseResponse child response =
        (growFetchSize (child\<lparr>preferredReadReplica := preferredReadReplica child\<rparr>), Inr [])"
      using b e n p nb by (simp add: parseResponse_def Let_def)
    then show ?thesis by blast
  qed
qed

lemma growFetchSize_fields:
  "conf (growFetchSize c) = conf c" "topic (growFetchSize c) = topic c"
  "partition (growFetchSize c) = partition c"
  by (simp_all add: growFetchSize_def sendError_def Let_def)

lemma growFetchSize_limit:
  assumes "0 < sint (Fetch_Max (conf c))" "fetchSize c = Fetch_Max (conf c)"
  shows "fetchSize (growFetchSize c) = fetchSize c"
    "offset (growFetchSize c) = offset c + 1"
    "surfaced (growFetchSize c) = surfacedWith c ErrMessageTooLarge"
  using assms
  by (simp_all add: growFetchSize_def sendError_def Let_def surfaced_def surfacedWith_def
      consumerError_def)

lemma growFetchSize_grow:
  assumes "\<not> (0 < sint (Fetch_Max (conf c)) \<and> fetchSize c = Fetch_Max (conf c))"
  shows "offset (growFetchSize c) = offset c"
    "surfaced (growFetchSize c) = surfaced c"
    "fetchSize (growFetchSize c) =
       (let checked = (if sint (fetchSize c * 2) < 0 then MaxInt32 else fetchSize c * 2)
        in if 0 < sint (Fetch_Max (conf c)) \<and> sint (Fetch_Max (conf c)) < sint checked
           then Fetch_Max (conf c) else checked)"
  using assms
  by (auto simp: growFetchSize_def Let_def surfaced_def)

lemma growFetchSize_int:
  assumes "\<not> (0 < sint (Fetch_Max (conf c)) \<and> fetchSize c = Fetch_Max (conf c))"
    and "0 \<le> sint (fetchSize c)"
  shows "sint (fetchSize (growFetchSize c)) =
       (let saturated = min (2 * sint (fetchSize c)) 2147483647
        in if 0 < sint (Fetch_Max (conf c)) \<and> sint (Fetch_Max (conf c)) < saturated
           then sint (Fetch_Max (conf c)) else saturated)"
  using assms sint_double [of "fetchSize c"] sint_lt [of "fetchSize c"]
  by (auto simp: growFetchSize_grow Let_def sint_MaxInt32 min_def)

lemma growFetchSize_range:
  assumes "0 < sint (Fetch_Max (conf c))"
    and "sint (Fetch_Default (conf c)) \<le> sint (fetchSize c)"
    and "sint (fetchSize c) \<le> sint (Fetch_Max (conf c))"
  shows "sint (Fetch_Default (conf c)) \<le> sint (fetchSize (growFetchSize c))
       \<and> sint (fetchSize (growFetchSize c)) \<le> sint (Fetch_Max (conf c))"
proof (cases "fetchSize c = Fetch_Max (conf c)")
  case True
  then show ?thesis using assms by (simp add: growFetchSize_limit)
next
  case False
  have m: "sint (fetchSize c) \<le> 2147483647" using sint_lt [of "fetchSize c"] by simp
  show ?thesis
  proof (cases "0 \<le> sint (fetchSize c)")
    case True
    then show ?thesis
      using False assms m growFetchSize_int [of c] by (auto simp: Let_def min_def)
  next
    case neg: False
    then show ?thesis
      using False assms m sint_lt [of "Fetch_Max (conf c)"]
      by (auto simp: growFetchSize_grow Let_def sint_MaxInt32)
  qed
qed


lemma partialTrailing_cong:
  "topic c' = topic c \<Longrightarrow> partition c' = partition c \<Longrightarrow>
     partialTrailing c' response = partialTrailing c response"
  by (simp add: partialTrailing_def)

lemma fst_parseResponses_Cons:
  "fst (parseResponses c (r # rs)) = fst (parseResponses (fst (parseResponse c r)) rs)"
  by (simp add: split_def)

lemma parseResponses_partial_range:
  assumes "0 < sint (Fetch_Max K)"
  shows "conf c = K \<Longrightarrow> sint (Fetch_Default K) \<le> sint (fetchSize c) \<Longrightarrow>
         sint (fetchSize c) \<le> sint (Fetch_Max K) \<Longrightarrow>
         \<forall>r\<in>set rs. partialTrailing c r \<Longrightarrow>
         sint (Fetch_Default K) \<le> sint (fetchSize (fst (parseResponses c rs)))
         \<and> sint (fetchSize (fst (parseResponses c rs))) \<le> sint (Fetch_Max K)"
proof (induction rs arbitrary: c)
  case Nil
  then show ?case by simp
next
  case (Cons r rs)
  from Cons.prems obtain x where
    step: "parseResponse c r = (growFetchSize (c\<lparr>preferredReadReplica := x\<rparr>), Inr [])"
    using parseResponse_partial [of c r] by auto
  let ?c = "growFetchSize (c\<lparr>preferredReadReplica := x\<rparr>)"
  have k: "conf ?c = K" using Cons.prems by (simp add: growFetchSize_fields)
  have rng: "sint (Fetch_Default K) \<le> sint (fetchSize ?c) \<and> sint (fetchSize ?c) \<le> sint (Fetch_Max K)"
    using growFetchSize_range [of "c\<lparr>preferredReadReplica := x\<rparr>"] Cons.prems assms by simp
  have rest: "\<forall>r\<in>set rs. partialTrailing ?c r"
    using Cons.prems partialTrailing_cong [of ?c c] by (simp add: growFetchSize_fields)
  have "fst (parseResponses c (r # rs)) = fst (parseResponses ?c rs)"
    by (simp only: fst_parseResponses_Cons step fst_conv)
  then show ?case
    using Cons.IH [OF k _ _ rest] rng by presburger
qed

lemma growFetchSize_unlimited:
  assumes "sint (Fetch_Max (conf c)) \<le> 0"
  shows "offset (growFetchSize c) = offset c"
    "surfaced (growFetchSize c) = surfaced c"
    "fetchSize (growFetchSize c) =
       (if sint (fetchSize c * 2) < 0 then MaxInt32 else fetchSize c * 2)"
  using assms by (simp_all add: growFetchSize_grow Let_def)

lemma double_MaxInt32: "sint (MaxInt32 * 2) < 0"
  by (simp add: MaxInt32_def)

lemma parseResponses_partial_stays:
  assumes "sint (Fetch_Max K) \<le> 0"
  shows "conf c = K \<Longrightarrow> fetchSize c = MaxInt32 \<Longrightarrow>
         \<forall>r\<in>set rs. partialTrailing c r \<Longrightarrow>
         fetchSize (fst (parseResponses c rs)) = MaxInt32"
proof (induction rs arbitrary: c)
  case Nil
  then show ?case by simp
next
  case (Cons r rs)
  from Cons.prems obtain x where
    step: "parseResponse c r = (growFetchSize (c\<lparr>preferredReadReplica := x\<rparr>), Inr [])"
    using parseResponse_partial [of c r] by auto
  let ?c = "growFetchSize (c\<lparr>preferredReadReplica := x\<rparr>)"
  have k: "conf ?c = K" using Cons.prems by (simp add: growFetchSize_fields)
  have m: "fetchSize ?c = MaxInt32"
    using growFetchSize_unlimited(3) [of "c\<lparr>preferredReadReplica := x\<rparr>"] Cons.prems assms
    by (simp add: double_MaxInt32)
  have rest: "\<forall>r\<in>set rs. partialTrailing ?c r"
    using Cons.prems partialTrailing_cong [of ?c c] by (simp add: growFetchSize_fields)
  have "fst (parseResponses c (r # rs)) = fst (parseResponses ?c rs)"
    by (simp only: fst_parseResponses_Cons step fst_conv)
  then show ?case
    using Cons.IH [OF k m rest] by simp
qed



lemma scenario_partial_step:
  "parseResponse
     (scenario_child off\<lparr>fetchSize := fs, errors := es\<rparr>) scenario_partial =
   (growFetchSize (scenario_child off\<lparr>fetchSize := fs, errors := es\<rparr>), Inr [])"
  by (simp add: parseResponse_def GetBlock_def scenario_defs scenario_partial_def
      invalidPreferredReplicaID_def)

lemma scenario_grow:
  "fs \<noteq> 8192 \<Longrightarrow> \<not> sint (fs * 2) < 0 \<Longrightarrow> \<not> 8192 < sint (fs * 2) \<Longrightarrow>
   growFetchSize (scenario_child off\<lparr>fetchSize := fs, errors := es\<rparr>) =
     scenario_child off\<lparr>fetchSize := fs * 2, errors := es\<rparr>"
  by (simp add: growFetchSize_def scenario_defs Let_def)

lemma scenario_limit:
  "growFetchSize (scenario_child off\<lparr>fetchSize := 8192, errors := es\<rparr>) =
     scenario_child (off + 1)\<lparr>fetchSize := 8192,
        errors := es @ [consumerError (scenario_child off) ErrMessageTooLarge]\<rparr>"
  by (simp add: growFetchSize_def scenario_defs Let_def sendError_def consumerError_def)

lemma scenario_child_eq:
  "scenario_child off = scenario_child off\<lparr>fetchSize := 1024, errors := []\<rparr>"
  by (simp add: scenario_defs)

lemma S2_one:
  "fst (parseResponses (scenario_child 7) [scenario_partial]) =
     scenario_child 7\<lparr>fetchSize := 2048, errors := []\<rparr>"
  by (subst scenario_child_eq) (simp add: scenario_partial_step scenario_grow)

lemma S2_four:
  "fst (parseResponses (scenario_child 7)
          [scenario_partial, scenario_partial, scenario_partial, scenario_partial]) =
     scenario_child 8\<lparr>fetchSize := 8192,
        errors := [consumerError (scenario_child 7) ErrMessageTooLarge]\<rparr>"
  by (subst scenario_child_eq) (simp add: scenario_partial_step scenario_grow scenario_limit)


text \<open>
  Claim C3. On a response whose block has no records and ends in a partial trailing
  message, \<^verbatim>\<open>parseResponse\<close> returns no message and no error. When \<open>Fetch.Max\<close> is
  positive and the fetch size equals it, \<open>ErrMessageTooLarge\<close> is sent, the offset
  advances by exactly one and the fetch size stays. Otherwise nothing is sent, the
  offset stays and the fetch size is doubled, set to \<open>MaxInt32\<close> when the doubling is
  negative and then to \<open>Fetch.Max\<close> when that is positive and smaller; for a fetch size
  that is not negative this is the minimum of twice its value and \<open>2^31 - 1\<close>, clamped.
  With a positive \<open>Fetch.Max\<close>, a fetch size between the default and the maximum stays
  between them after any sequence of such responses. In scenario S2 (fetch size and
  default 1024, maximum 8192) the fetch size is 2048 after one such response and 8192
  after four, and a fifth leaves it at 8192, sends \<open>ErrMessageTooLarge\<close> and advances
  the offset by one.
\<close>

theorem partial_trailing_growth:
  assumes "partialTrailing child response"
  shows "snd (parseResponse child response) = Inr []
    \<and> (if 0 < sint (Fetch_Max (conf child)) \<and> fetchSize child = Fetch_Max (conf child)
       then fetchSize (fst (parseResponse child response)) = fetchSize child
          \<and> offset (fst (parseResponse child response)) = offset child + 1
          \<and> surfaced (fst (parseResponse child response)) = surfacedWith child ErrMessageTooLarge
       else offset (fst (parseResponse child response)) = offset child
          \<and> surfaced (fst (parseResponse child response)) = surfaced child
          \<and> fetchSize (fst (parseResponse child response)) =
              (let checked = (if sint (fetchSize child * 2) < 0 then MaxInt32
                              else fetchSize child * 2)
               in if 0 < sint (Fetch_Max (conf child))
                     \<and> sint (Fetch_Max (conf child)) < sint checked
                  then Fetch_Max (conf child) else checked)
          \<and> (if 0 \<le> sint (fetchSize child)
              then sint (fetchSize (fst (parseResponse child response))) =
                (let saturated = min (2 * sint (fetchSize child)) 2147483647
                 in if 0 < sint (Fetch_Max (conf child))
                       \<and> sint (Fetch_Max (conf child)) < saturated
                    then sint (Fetch_Max (conf child)) else saturated)
              else True))
    \<and> (if 0 < sint (Fetch_Max (conf child))
          \<and> sint (Fetch_Default (conf child)) \<le> sint (fetchSize child)
          \<and> sint (fetchSize child) \<le> sint (Fetch_Max (conf child))
          \<and> list_all (partialTrailing child) responses
       then sint (Fetch_Default (conf child))
              \<le> sint (fetchSize (fst (parseResponses child responses)))
          \<and> sint (fetchSize (fst (parseResponses child responses)))
              \<le> sint (Fetch_Max (conf child))
       else True)
    \<and> fst (parseResponses (scenario_child 7) [scenario_partial]) =
         scenario_child 7\<lparr>fetchSize := 2048, errors := []\<rparr>
    \<and> fst (parseResponses (scenario_child 7)
              [scenario_partial, scenario_partial, scenario_partial, scenario_partial]) =
         scenario_child 8\<lparr>fetchSize := 8192,
           errors := [consumerError (scenario_child 7) ErrMessageTooLarge]\<rparr>
    \<and> parseResponse
         (scenario_child 8\<lparr>fetchSize := 8192,
            errors := [consumerError (scenario_child 7) ErrMessageTooLarge]\<rparr>)
         scenario_partial =
         (scenario_child 9\<lparr>fetchSize := 8192,
            errors := [consumerError (scenario_child 7) ErrMessageTooLarge,
                       consumerError (scenario_child 8) ErrMessageTooLarge]\<rparr>, Inr [])"
proof -
  from assms obtain r where
    step: "parseResponse child response =
             (growFetchSize (child\<lparr>preferredReadReplica := r\<rparr>), Inr [])"
    using parseResponse_partial by blast
  let ?c = "child\<lparr>preferredReadReplica := r\<rparr>"
  have one: "snd (parseResponse child response) = Inr []"
    by (simp add: step)
  have two: "if 0 < sint (Fetch_Max (conf child)) \<and> fetchSize child = Fetch_Max (conf child)
       then fetchSize (fst (parseResponse child response)) = fetchSize child
          \<and> offset (fst (parseResponse child response)) = offset child + 1
          \<and> surfaced (fst (parseResponse child response)) = surfacedWith child ErrMessageTooLarge
       else offset (fst (parseResponse child response)) = offset child
          \<and> surfaced (fst (parseResponse child response)) = surfaced child
          \<and> fetchSize (fst (parseResponse child response)) =
              (let checked = (if sint (fetchSize child * 2) < 0 then MaxInt32
                              else fetchSize child * 2)
               in if 0 < sint (Fetch_Max (conf child))
                     \<and> sint (Fetch_Max (conf child)) < sint checked
                  then Fetch_Max (conf child) else checked)
          \<and> (if 0 \<le> sint (fetchSize child)
              then sint (fetchSize (fst (parseResponse child response))) =
                (let saturated = min (2 * sint (fetchSize child)) 2147483647
                 in if 0 < sint (Fetch_Max (conf child))
                       \<and> sint (Fetch_Max (conf child)) < saturated
                    then sint (Fetch_Max (conf child)) else saturated)
              else True)"
  proof (cases "0 < sint (Fetch_Max (conf child)) \<and> fetchSize child = Fetch_Max (conf child)")
    case True
    then show ?thesis
      using growFetchSize_limit [of ?c]
      by (simp add: step surfacedWith_def consumerError_def)
  next
    case False
    then have f: "\<not> (0 < sint (Fetch_Max (conf ?c)) \<and> fetchSize ?c = Fetch_Max (conf ?c))"
      by simp
    show ?thesis
      using False growFetchSize_grow [OF f] growFetchSize_int [OF f]
      by (simp add: step surfaced_def Let_def)
  qed
  have three: "if 0 < sint (Fetch_Max (conf child))
          \<and> sint (Fetch_Default (conf child)) \<le> sint (fetchSize child)
          \<and> sint (fetchSize child) \<le> sint (Fetch_Max (conf child))
          \<and> list_all (partialTrailing child) responses
       then sint (Fetch_Default (conf child))
              \<le> sint (fetchSize (fst (parseResponses child responses)))
          \<and> sint (fetchSize (fst (parseResponses child responses)))
              \<le> sint (Fetch_Max (conf child))
       else True"
    using parseResponses_partial_range [of "conf child" child responses]
    by (simp add: list_all_iff)
  have five: "parseResponse
         (scenario_child 8\<lparr>fetchSize := 8192,
            errors := [consumerError (scenario_child 7) ErrMessageTooLarge]\<rparr>)
         scenario_partial =
         (scenario_child 9\<lparr>fetchSize := 8192,
            errors := [consumerError (scenario_child 7) ErrMessageTooLarge,
                       consumerError (scenario_child 8) ErrMessageTooLarge]\<rparr>, Inr [])"
    by (simp add: scenario_partial_step scenario_limit)
  show ?thesis
    using one two three S2_one S2_four five by blast
qed

theorem partial_trailing_growth_witness:
  "fetchSize (fst (parseResponse (scenario_child 7) scenario_partial)) = 2048
   \<and> offset (fst (parseResponse (scenario_child 7) scenario_partial)) = 7"
proof -
  have p: "partialTrailing (scenario_child 7) scenario_partial"
    by (simp add: partialTrailing_def GetBlock_def scenario_defs scenario_partial_def)
  show ?thesis
    using partial_trailing_growth [OF p, of "[]"]
    by (simp add: scenario_defs MaxInt32_def)
qed

text \<open>
  Claim C9. When \<open>Fetch.Max\<close> is zero or negative, a response whose block has no records
  and ends in a partial trailing message sends no error and leaves the offset; the
  fetch size is doubled and is \<open>MaxInt32\<close> exactly when the doubling in \<^verbatim>\<open>int32\<close> is
  negative, with no clamp to a maximum. For a fetch size that is not negative the
  doubling is negative exactly when twice the value exceeds \<open>2^31 - 1\<close>. Once the fetch
  size is \<open>MaxInt32\<close> it stays so after any sequence of such responses.
\<close>

theorem partial_trailing_without_maximum:
  assumes "partialTrailing child response"
    and "sint (Fetch_Max (conf child)) \<le> 0"
  shows "surfaced (fst (parseResponse child response)) = surfaced child
    \<and> offset (fst (parseResponse child response)) = offset child
    \<and> fetchSize (fst (parseResponse child response)) =
        (if sint (fetchSize child * 2) < 0 then MaxInt32 else fetchSize child * 2)
    \<and> (fetchSize (fst (parseResponse child response)) = MaxInt32
         \<longleftrightarrow> sint (fetchSize child * 2) < 0)
    \<and> (if 0 \<le> sint (fetchSize child)
       then (sint (fetchSize child * 2) < 0 \<longleftrightarrow> 2147483647 < 2 * sint (fetchSize child))
          \<and> sint (fetchSize (fst (parseResponse child response))) =
              min (2 * sint (fetchSize child)) 2147483647
       else True)
    \<and> (if fetchSize child = MaxInt32 \<and> list_all (partialTrailing child) responses
       then fetchSize (fst (parseResponses child responses)) = MaxInt32
       else True)"
proof -
  from assms obtain r where
    step: "parseResponse child response =
             (growFetchSize (child\<lparr>preferredReadReplica := r\<rparr>), Inr [])"
    using parseResponse_partial by blast
  let ?c = "child\<lparr>preferredReadReplica := r\<rparr>"
  have m: "sint (Fetch_Max (conf ?c)) \<le> 0" using assms by simp
  have f: "\<not> (0 < sint (Fetch_Max (conf ?c)) \<and> fetchSize ?c = Fetch_Max (conf ?c))"
    using assms by simp
  have a: "surfaced (fst (parseResponse child response)) = surfaced child"
    using growFetchSize_unlimited(2) [OF m] by (simp add: step surfaced_def)
  have b: "offset (fst (parseResponse child response)) = offset child"
    using growFetchSize_unlimited(1) [OF m] by (simp add: step)
  have c: "fetchSize (fst (parseResponse child response)) =
        (if sint (fetchSize child * 2) < 0 then MaxInt32 else fetchSize child * 2)"
    using growFetchSize_unlimited(3) [OF m] by (simp add: step)
  have d: "fetchSize (fst (parseResponse child response)) = MaxInt32
         \<longleftrightarrow> sint (fetchSize child * 2) < 0"
    using c double_not_max [of "fetchSize child"] by auto
  have e: "if 0 \<le> sint (fetchSize child)
       then (sint (fetchSize child * 2) < 0 \<longleftrightarrow> 2147483647 < 2 * sint (fetchSize child))
          \<and> sint (fetchSize (fst (parseResponse child response))) =
              min (2 * sint (fetchSize child)) 2147483647
       else True"
    using c sint_double [of "fetchSize child"] sint_lt [of "fetchSize child"]
    by (auto simp: sint_MaxInt32 min_def)
  have g: "if fetchSize child = MaxInt32 \<and> list_all (partialTrailing child) responses
       then fetchSize (fst (parseResponses child responses)) = MaxInt32
       else True"
    using parseResponses_partial_stays [of "conf child" child responses] assms(2)
    by (simp add: list_all_iff)
  show ?thesis
    using a b c d e g by blast
qed

theorem partial_trailing_without_maximum_witness:
  "fetchSize (fst (parseResponse
      (scenario_child 7\<lparr>conf := scenario_conf\<lparr>Fetch_Max := 0\<rparr>, fetchSize := 1073741824\<rparr>)
      scenario_partial)) = 2147483647"
proof -
  let ?c = "scenario_child 7\<lparr>conf := scenario_conf\<lparr>Fetch_Max := 0\<rparr>, fetchSize := 1073741824\<rparr>"
  have p: "partialTrailing ?c scenario_partial"
    by (simp add: partialTrailing_def GetBlock_def scenario_defs scenario_partial_def)
  have m: "sint (Fetch_Max (conf ?c)) \<le> 0"
    by simp
  show ?thesis
    using partial_trailing_without_maximum [OF p m, of "[]"]
    by (simp add: MaxInt32_def)
qed

subsection \<open>A response without the subscription's block\<close>

text \<open>
  Claim C8. When a response is not a throttled response without blocks (its throttle
  time is zero or it has a block) and has no block for the subscription's topic and
  partition, \<^verbatim>\<open>parseResponse\<close> returns \<open>ErrIncompleteResponse\<close> and no message, and the
  subscription is as it was, in every field.
\<close>

theorem incomplete_response:
  assumes "ThrottleTime response = 0 \<or> Blocks response \<noteq> []"
    and "GetBlock response (topic child) (partition child) = None"
  shows "parseResponse child response = (child, Inl ErrIncompleteResponse)"
  using assms by (auto simp: parseResponse_def)

theorem incomplete_response_witness:
  "parseResponse (scenario_child 42) \<lparr>ThrottleTime = 0, Blocks = [(''u'', [])]\<rparr>
     = (scenario_child 42, Inl ErrIncompleteResponse)"
proof -
  have t: "ThrottleTime \<lparr>ThrottleTime = 0, Blocks = [(''u'', [])]\<rparr> = 0
      \<or> Blocks \<lparr>ThrottleTime = 0, Blocks = [(''u'', [])]\<rparr> \<noteq> []"
    by simp
  have g: "GetBlock \<lparr>ThrottleTime = 0, Blocks = [(''u'', [])]\<rparr>
             (topic (scenario_child 42)) (partition (scenario_child 42)) = None"
    by (simp add: GetBlock_def scenario_child_def)
  show ?thesis
    by (rule incomplete_response [OF t g])
qed

subsection \<open>The classification of the outcomes\<close>

lemma handleResponses_split:
  "handleResponses client (bc\<lparr>subscriptions := before @ child # after\<rparr>) =
     (bc\<lparr>subscriptions :=
         subscriptions (fst (handleResponses client (bc\<lparr>subscriptions := before\<rparr>)))
         @ (if snd (handleResponse client (bc_broker bc) child)
            then [fst (handleResponse client (bc_broker bc) child)] else [])
         @ subscriptions (fst (handleResponses client (bc\<lparr>subscriptions := after\<rparr>)))\<rparr>,
      snd (handleResponses client (bc\<lparr>subscriptions := before\<rparr>))
      @ (if snd (handleResponse client (bc_broker bc) child)
         then [] else [fst (handleResponse client (bc_broker bc) child)])
      @ snd (handleResponses client (bc\<lparr>subscriptions := after\<rparr>)))"
  by (simp add: handleResponses_def Let_def)

lemma handleResponse_out_of_range:
  "responseResult child = Some ErrOffsetOutOfRange \<Longrightarrow>
     handleResponse client brokerID child =
       ((sendError (resultTaken child) ErrOffsetOutOfRange)
          \<lparr>trigger := trigger child @ [TriggerClose]\<rparr>, False)"
  by (simp add: handleResponse_def resultTaken_def Let_def sendError_def)

lemma handleResponse_retriable:
  "responseResult child = Some e \<Longrightarrow> silentRetriable e \<Longrightarrow>
     handleResponse client brokerID child =
       ((resultTaken child)\<lparr>trigger := trigger child @ [TriggerSend]\<rparr>, False)"
  by (auto simp: handleResponse_def resultTaken_def Let_def silentRetriable_def)

text \<open>
  Claim C5. For a subscription whose recorded outcome is \<open>ErrOffsetOutOfRange\<close>, the loop
  body of \<^verbatim>\<open>handleResponses\<close> sends the error to the user, closes the trigger and
  deletes the subscription from the set, and sends nothing on the trigger. For an
  outcome among \<open>ErrUnknownTopicOrPartition\<close>, \<open>ErrNotLeaderForPartition\<close>,
  \<open>ErrLeaderNotAvailable\<close>, \<open>ErrReplicaNotAvailable\<close>, \<open>ErrFencedLeaderEpoch\<close> and
  \<open>ErrUnknownLeaderEpoch\<close> it deletes the subscription from the set and sends on the
  trigger, and no error is sent to the user. In both cases \<^verbatim>\<open>handleResponses\<close> leaves
  the subscription out of the broker consumer's set, wherever it stood in it.
\<close>

theorem handleResponses_classification:
  "(if responseResult child = Some ErrOffsetOutOfRange
    then handleResponse client (bc_broker bc) child =
           ((sendError (resultTaken child) ErrOffsetOutOfRange)
              \<lparr>trigger := trigger child @ [TriggerClose]\<rparr>, False)
       \<and> surfaced (fst (handleResponse client (bc_broker bc) child)) =
           surfacedWith child ErrOffsetOutOfRange
       \<and> trigger (fst (handleResponse client (bc_broker bc) child)) =
           trigger child @ [TriggerClose]
    else True)
   \<and> (if responseResult child = Some e \<and> silentRetriable e
       then handleResponse client (bc_broker bc) child =
              ((resultTaken child)\<lparr>trigger := trigger child @ [TriggerSend]\<rparr>, False)
          \<and> surfaced (fst (handleResponse client (bc_broker bc) child)) = surfaced child
          \<and> trigger (fst (handleResponse client (bc_broker bc) child)) =
              trigger child @ [TriggerSend]
       else True)
   \<and> (if responseResult child = Some ErrOffsetOutOfRange
          \<or> (responseResult child = Some e \<and> silentRetriable e)
       then handleResponses client (bc\<lparr>subscriptions := before @ child # after\<rparr>) =
             (bc\<lparr>subscriptions :=
                 subscriptions (fst (handleResponses client (bc\<lparr>subscriptions := before\<rparr>)))
                 @ subscriptions (fst (handleResponses client (bc\<lparr>subscriptions := after\<rparr>)))\<rparr>,
              snd (handleResponses client (bc\<lparr>subscriptions := before\<rparr>))
              @ [fst (handleResponse client (bc_broker bc) child)]
              @ snd (handleResponses client (bc\<lparr>subscriptions := after\<rparr>)))
       else True)"
proof -
  have a: "responseResult child = Some ErrOffsetOutOfRange \<Longrightarrow>
      surfaced (fst (handleResponse client (bc_broker bc) child)) =
           surfacedWith child ErrOffsetOutOfRange
       \<and> trigger (fst (handleResponse client (bc_broker bc) child)) =
           trigger child @ [TriggerClose]"
    by (simp add: handleResponse_out_of_range resultTaken_def sendError_def surfaced_def
        surfacedWith_def consumerError_def Let_def)
  have b: "responseResult child = Some e \<Longrightarrow> silentRetriable e \<Longrightarrow>
      surfaced (fst (handleResponse client (bc_broker bc) child)) = surfaced child
       \<and> trigger (fst (handleResponse client (bc_broker bc) child)) =
           trigger child @ [TriggerSend]"
    by (simp add: handleResponse_retriable resultTaken_def surfaced_def)
  have c: "responseResult child = Some ErrOffsetOutOfRange
          \<or> (responseResult child = Some e \<and> silentRetriable e) \<Longrightarrow>
      \<not> snd (handleResponse client (bc_broker bc) child)"
    using handleResponse_out_of_range [of child client "bc_broker bc"]
      handleResponse_retriable [of child e client "bc_broker bc"] by auto
  have d: "\<not> silentRetriable ErrOffsetOutOfRange"
    by (simp add: silentRetriable_def)
  show ?thesis
    using a b c d handleResponse_out_of_range [of child client "bc_broker bc"]
      handleResponse_retriable [of child e client "bc_broker bc"]
    by (auto simp: handleResponses_split)
qed

theorem handleResponses_classification_witness:
  "handleResponses scenario_client
     \<lparr>bc_conf = scenario_conf, bc_broker = 1,
      subscriptions = [(scenario_child 42)\<lparr>responseResult := Some ErrNotLeaderForPartition\<rparr>]\<rparr>
   = (\<lparr>bc_conf = scenario_conf, bc_broker = 1, subscriptions = []\<rparr>,
      [(scenario_child 42)\<lparr>trigger := [TriggerSend]\<rparr>])"
proof -
  let ?child = "(scenario_child 42)\<lparr>responseResult := Some ErrNotLeaderForPartition\<rparr>"
  let ?bc = "\<lparr>bc_conf = scenario_conf, bc_broker = 1, subscriptions = []\<rparr>"
  have r: "responseResult ?child = Some ErrNotLeaderForPartition
             \<and> silentRetriable ErrNotLeaderForPartition"
    by (simp add: silentRetriable_def)
  have e: "handleResponses scenario_client ?bc = (?bc, [])"
    by (simp add: handleResponses_def)
  show ?thesis
    using handleResponses_classification
      [of ?child scenario_client ?bc ErrNotLeaderForPartition "[]" "[]"] r e
    by (simp add: resultTaken_def scenario_child_def invalidPreferredReplicaID_def)
qed

subsection \<open>The version of the fetch request\<close>

lemmas version_defs = V0_9_0_0_def V0_10_0_0_def V0_10_1_0_def V0_11_0_0_def V1_0_0_0_def
  V1_1_0_0_def V2_0_0_0_def V2_1_0_0_def V2_3_0_0_def

lemma IsAtLeast_chain:
  "IsAtLeast v V2_3_0_0 \<Longrightarrow> IsAtLeast v V2_1_0_0"
  "IsAtLeast v V2_1_0_0 \<Longrightarrow> IsAtLeast v V2_0_0_0"
  "IsAtLeast v V2_0_0_0 \<Longrightarrow> IsAtLeast v V1_1_0_0"
  "IsAtLeast v V1_1_0_0 \<Longrightarrow> IsAtLeast v V1_0_0_0"
  "IsAtLeast v V1_0_0_0 \<Longrightarrow> IsAtLeast v V0_11_0_0"
  "IsAtLeast v V0_11_0_0 \<Longrightarrow> IsAtLeast v V0_10_1_0"
  "IsAtLeast v V0_10_1_0 \<Longrightarrow> IsAtLeast v V0_10_0_0"
  "IsAtLeast v V0_10_0_0 \<Longrightarrow> IsAtLeast v V0_9_0_0"
  by (cases v; auto simp: version_defs)+

lemma versionedRequest_Version:
  "req_Version (versionedRequest c) =
     (if IsAtLeast (Version c) V2_3_0_0 then 11
      else if IsAtLeast (Version c) V2_1_0_0 then 10
      else if IsAtLeast (Version c) V2_0_0_0 then 8
      else if IsAtLeast (Version c) V1_1_0_0 then 7
      else if IsAtLeast (Version c) V1_0_0_0 then 6
      else if IsAtLeast (Version c) V0_11_0_0 then 5
      else if IsAtLeast (Version c) V0_10_1_0 then 3
      else if IsAtLeast (Version c) V0_10_0_0 then 2
      else if IsAtLeast (Version c) V0_9_0_0 then 1
      else 0)"
  using IsAtLeast_chain [of "Version c"]
  by (auto simp: versionedRequest_def Let_def)

lemma versionedRequest_MaxBytes:
  "MaxBytes (versionedRequest c) =
     (if IsAtLeast (Version c) V0_10_1_0 then MaxResponseSize c else 0)"
  by (simp add: versionedRequest_def Let_def)

lemma versionedRequest_Isolation:
  "Isolation (versionedRequest c) =
     (if IsAtLeast (Version c) V0_11_0_0 then IsolationLevel c else ReadUncommitted)"
  by (simp add: versionedRequest_def Let_def)

lemma versionedRequest_RackID:
  "req_RackID (versionedRequest c) =
     (if IsAtLeast (Version c) V2_3_0_0 then RackID c else [])"
  by (simp add: versionedRequest_def Let_def)

lemma versionedRequest_Session:
  "SessionID (versionedRequest c) = 0
   \<and> SessionEpoch (versionedRequest c) =
       (if IsAtLeast (Version c) V1_1_0_0 then - 1 else 0)"
  by (simp add: versionedRequest_def Let_def)

lemma addBlocks_fields:
  "req_Version (addBlocks r subs) = req_Version r"
  "MaxBytes (addBlocks r subs) = MaxBytes r"
  "Isolation (addBlocks r subs) = Isolation r"
  "req_RackID (addBlocks r subs) = req_RackID r"
  "SessionID (addBlocks r subs) = SessionID r"
  "SessionEpoch (addBlocks r subs) = SessionEpoch r"
  by (induction r subs rule: addBlocks.induct) simp_all

text \<open>
  Claim C7. For every configured broker version, the request that \<^verbatim>\<open>fetchNewMessages\<close>
  builds has the version of the greatest threshold that the broker version reaches: 11
  from 2.3, 10 from 2.1, 8 from 2.0, 7 from 1.1, 6 from 1.0, 5 from 0.11, 3 from
  0.10.1, 2 from 0.10.0, 1 from 0.9, and 0 below. \<open>MaxBytes\<close> is set from 0.10.1, the
  isolation level from 0.11 and the rack id from 2.3. Whenever the version is at least
  7 the session id is 0 and the session epoch is \<open>-1\<close>.
\<close>

theorem fetch_request_version:
  "req_Version (addBlocks (versionedRequest c) subs) =
     (if IsAtLeast (Version c) V2_3_0_0 then 11
      else if IsAtLeast (Version c) V2_1_0_0 then 10
      else if IsAtLeast (Version c) V2_0_0_0 then 8
      else if IsAtLeast (Version c) V1_1_0_0 then 7
      else if IsAtLeast (Version c) V1_0_0_0 then 6
      else if IsAtLeast (Version c) V0_11_0_0 then 5
      else if IsAtLeast (Version c) V0_10_1_0 then 3
      else if IsAtLeast (Version c) V0_10_0_0 then 2
      else if IsAtLeast (Version c) V0_9_0_0 then 1
      else 0)
   \<and> MaxBytes (addBlocks (versionedRequest c) subs) =
       (if IsAtLeast (Version c) V0_10_1_0 then MaxResponseSize c else 0)
   \<and> Isolation (addBlocks (versionedRequest c) subs) =
       (if IsAtLeast (Version c) V0_11_0_0 then IsolationLevel c else ReadUncommitted)
   \<and> req_RackID (addBlocks (versionedRequest c) subs) =
       (if IsAtLeast (Version c) V2_3_0_0 then RackID c else [])
   \<and> (if 7 \<le> req_Version (addBlocks (versionedRequest c) subs)
       then SessionID (addBlocks (versionedRequest c) subs) = 0
          \<and> SessionEpoch (addBlocks (versionedRequest c) subs) = - 1
       else True)
   \<and> fetchNewMessages Fetch \<lparr>bc_conf = c, bc_broker = b, subscriptions = subs\<rparr> =
       (if blocks (addBlocks (versionedRequest c) subs) = [] then Inr None
        else map_sum id Some (Fetch (addBlocks (versionedRequest c) subs)))"
proof -
  have session: "if 7 \<le> req_Version (addBlocks (versionedRequest c) subs)
       then SessionID (addBlocks (versionedRequest c) subs) = 0
          \<and> SessionEpoch (addBlocks (versionedRequest c) subs) = - 1
       else True"
    using IsAtLeast_chain [of "Version c"]
    by (auto simp: addBlocks_fields versionedRequest_Version versionedRequest_Session
        split: if_splits)
  have fetch: "fetchNewMessages Fetch \<lparr>bc_conf = c, bc_broker = b, subscriptions = subs\<rparr> =
       (if blocks (addBlocks (versionedRequest c) subs) = [] then Inr None
        else map_sum id Some (Fetch (addBlocks (versionedRequest c) subs)))"
    by (simp add: fetchNewMessages_def Let_def split: sum.splits)
  show ?thesis
    using session fetch
    by (simp only: addBlocks_fields versionedRequest_Version versionedRequest_MaxBytes
        versionedRequest_Isolation versionedRequest_RackID simp_thms)
qed

theorem fetch_request_version_witness:
  "req_Version (addBlocks (versionedRequest (scenario_conf\<lparr>Version := (2, 0, 5, 0)\<rparr>))
      [scenario_child 42]) = 8
   \<and> SessionEpoch (addBlocks (versionedRequest (scenario_conf\<lparr>Version := (2, 0, 5, 0)\<rparr>))
      [scenario_child 42]) = - 1"
proof -
  let ?c = "scenario_conf\<lparr>Version := (2, 0, 5, 0)\<rparr>"
  let ?r = "addBlocks (versionedRequest ?c) [scenario_child 42]"
  note t = fetch_request_version [of ?c "[scenario_child 42]" "\<lambda>r. Inl ErrNoError" 1]
  have tier: "(if IsAtLeast (Version ?c) V2_3_0_0 then 11
      else if IsAtLeast (Version ?c) V2_1_0_0 then 10
      else if IsAtLeast (Version ?c) V2_0_0_0 then 8
      else if IsAtLeast (Version ?c) V1_1_0_0 then 7
      else if IsAtLeast (Version ?c) V1_0_0_0 then 6
      else if IsAtLeast (Version ?c) V0_11_0_0 then 5
      else if IsAtLeast (Version ?c) V0_10_1_0 then 3
      else if IsAtLeast (Version ?c) V0_10_0_0 then 2
      else if IsAtLeast (Version ?c) V0_9_0_0 then 1
      else 0) = (8::int)"
    by (simp add: version_defs)
  have v: "req_Version ?r = 8"
    using t [THEN conjunct1] tier by (simp only:)
  have "if 7 \<le> req_Version ?r
       then SessionID ?r = 0 \<and> SessionEpoch ?r = - 1 else True"
    by (rule t [THEN conjunct2, THEN conjunct2, THEN conjunct2, THEN conjunct2, THEN conjunct1])
  then have "SessionEpoch ?r = - 1"
    by (simp only: v)
  then show ?thesis using v by (simp only: simp_thms)
qed

subsection \<open>Transactions, control batches and the committed offset\<close>


lemma sint_succ:
  fixes x :: int64
  assumes "sint x < 9223372036854775807"
  shows "sint (x + 1) = sint x + 1"
proof -
  have lb: "- (2 ^ 63) \<le> sint x" using sint_ge [of x] by simp
  have "sint (x + 1) = signed_take_bit 63 (sint x + 1)"
    by (simp add: sint_word_ariths)
  also have "\<dots> = sint x + 1"
    using assms lb by (simp add: signed_take_bit_int_eq_self)
  finally show ?thesis .
qed

lemma offsetAfter_bounds:
  assumes "\<forall>r\<in>set rs. sint (off r) < u" and "u \<le> 9223372036854775807"
  shows "sint cur \<le> u \<Longrightarrow>
         sint cur \<le> sint (offsetAfter off cur rs) \<and> sint (offsetAfter off cur rs) \<le> u"
  using assms(1)
proof (induction rs arbitrary: cur)
  case Nil
  then show ?case by simp
next
  case (Cons r rs)
  show ?case
  proof (cases "sint (off r) < sint cur")
    case True
    then show ?thesis using Cons by simp
  next
    case False
    have s: "sint (off r + 1) = sint (off r) + 1"
      using Cons.prems assms(2) by (intro sint_succ) auto
    have "sint (off r + 1) \<le> sint (offsetAfter off (off r + 1) rs)
        \<and> sint (offsetAfter off (off r + 1) rs) \<le> u"
      using Cons.IH [of "off r + 1"] Cons.prems s by auto
    then show ?thesis using False s by simp
  qed
qed

lemma offsetAfter_records_below:
  assumes "\<forall>r\<in>set rs. sint (off r) < u" and "u \<le> 9223372036854775807"
  shows "sint cur \<le> u \<Longrightarrow> \<forall>r\<in>set rs. sint (off r) < sint cur
           \<or> sint (off r) < sint (offsetAfter off cur rs)"
  using assms(1)
proof (induction rs arbitrary: cur)
  case Nil
  then show ?case by simp
next
  case (Cons r rs)
  show ?case
  proof (cases "sint (off r) < sint cur")
    case True
    then show ?thesis using Cons by simp
  next
    case False
    have s: "sint (off r + 1) = sint (off r) + 1"
      using Cons.prems assms(2) by (intro sint_succ) auto
    have le: "sint (off r + 1) \<le> u" using Cons.prems s by auto
    have rs: "\<forall>r\<in>set rs. sint (off r) < u" using Cons.prems by simp
    have b: "sint (off r + 1) \<le> sint (offsetAfter off (off r + 1) rs)"
      using offsetAfter_bounds [OF rs assms(2) le] by simp
    have "\<forall>x\<in>set rs. sint (off x) < sint (off r + 1)
           \<or> sint (off x) < sint (offsetAfter off (off r + 1) rs)"
      using Cons.IH [OF le rs] .
    then have "\<forall>x\<in>set rs. sint (off x) < sint (offsetAfter off (off r + 1) rs)"
      using b by fastforce
    then show ?thesis using False s b by auto
  qed
qed

lemma consumeAborted_eq:
  "consumeAborted lastOffset pending aborted =
     (aborted \<union> atx_ProducerID ` set (takeWhile (beginsBy lastOffset) pending),
      dropWhile (beginsBy lastOffset) pending)"
  by (induction pending arbitrary: aborted) (auto simp: beginsBy_def)

lemma parseRecords_conf: "conf (fst (parseRecords child batch)) = conf child"
  by (simp add: parseRecords_eq)





lemma offsetAfter_strict:
  assumes "\<forall>r\<in>set rs. sint (off r) < u" and "u \<le> 9223372036854775807"
  shows "sint cur \<le> u \<Longrightarrow> delivered off cur rs \<noteq> [] \<Longrightarrow>
           sint cur < sint (offsetAfter off cur rs)"
  using assms(1)
proof (induction rs arbitrary: cur)
  case Nil
  then show ?case by simp
next
  case (Cons r rs)
  show ?case
  proof (cases "sint (off r) < sint cur")
    case True
    then show ?thesis using Cons by simp
  next
    case False
    have s: "sint (off r + 1) = sint (off r) + 1"
      using Cons.prems assms(2) by (intro sint_succ) auto
    have le: "sint (off r + 1) \<le> u" using Cons.prems s by auto
    have rs: "\<forall>r\<in>set rs. sint (off r) < u" using Cons.prems by simp
    have b: "sint (off r + 1) \<le> sint (offsetAfter off (off r + 1) rs)"
      using offsetAfter_bounds [OF rs assms(2) le] by simp
    then show ?thesis using False s by simp
  qed
qed

lemma parseRecords_progress:
  assumes c: "sint (offset child) < 9223372036854775807"
    and r: "\<forall>r\<in>set (Records batch). sint (recordOffset batch r) < 9223372036854775807"
  shows "sint (offset child) < sint (offset (fst (parseRecords child batch)))
    \<and> (\<forall>r\<in>set (Records batch).
          sint (recordOffset batch r) < sint (offset (fst (parseRecords child batch))))"
proof (cases "delivered (recordOffset batch) (offset child) (Records batch) = []")
  case True
  have f: "offsetAfter (recordOffset batch) (offset child) (Records batch) = offset child"
    using True by (simp add: offsetAfter_last)
  have s: "sint (offset child + 1) = sint (offset child) + 1"
    using c by (rule sint_succ)
  have "\<forall>r\<in>set (Records batch). sint (recordOffset batch r) < sint (offset child)"
    using offsetAfter_records_below [OF r order_refl, of "offset child"] c f by auto
  then show ?thesis using True s by (auto simp: parseRecords_eq)
next
  case False
  have lt: "sint (offset child)
      < sint (offsetAfter (recordOffset batch) (offset child) (Records batch))"
    using offsetAfter_strict [OF r order_refl _ False] c by simp
  have "\<forall>r\<in>set (Records batch). sint (recordOffset batch r) < sint (offset child)
     \<or> sint (recordOffset batch r)
         < sint (offsetAfter (recordOffset batch) (offset child) (Records batch))"
    using offsetAfter_records_below [OF r order_refl, of "offset child"] c by simp
  then show ?thesis using False lt by (auto simp: parseRecords_eq)
qed





text \<open>
  Claim C10, as stated, fails: the offset that \<^verbatim>\<open>parseRecords\<close> commits for a skipped
  batch is behind the records that the batch holds, not behind the batch. A control
  batch that spans the offsets 100 to 105 and holds the records 100 and 101 leaves a
  subscription at offset 100 at offset 102, which is not above the last offset of the
  batch; the next request asks for offset 102, inside the batch, and parsing the same
  batch again moves the offset to 103. The committed offset is also that of the last
  record that passed the filter as it ran: a batch at 100 with the records 105 and 101,
  in this order, leaves the offset at 106.
\<close>

theorem skipped_batch_not_passed_counterexample:
  "offset (fst (parseRecordsSet (scenario_child 100)
      [scenario_control (scenario_batch 100 105 7 True [0, 1]) ControlRecordAbort]
      {7} [] [])) = 102
   \<and> sint (offset (fst (parseRecordsSet (scenario_child 100)
      [scenario_control (scenario_batch 100 105 7 True [0, 1]) ControlRecordAbort]
      {7} [] [])))
      \<le> sint (LastOffset (scenario_batch 100 105 7 True [0, 1]))
   \<and> map rb_fetchOffset (blocks (addBlocks (versionedRequest scenario_conf)
      [fst (parseRecordsSet (scenario_child 100)
         [scenario_control (scenario_batch 100 105 7 True [0, 1]) ControlRecordAbort]
         {7} [] [])])) = [102]
   \<and> parseRecordsSet (scenario_child 102)
      [scenario_control (scenario_batch 100 105 7 True [0, 1]) ControlRecordAbort]
      {7} [] [] = (scenario_child 103, {}, [], Inr [])
   \<and> offset (fst (parseRecords (scenario_child 100)
      (scenario_batch 100 105 7 True [5, 1]))) = 106"
  by (simp add: scenario_defs parseRecords_def versionedRequest_def IsPaused_def Let_def)

text \<open>
  Claim C10, amended. When \<^verbatim>\<open>parseResponse\<close> skips a control batch, or drops under
  \<open>ReadCommitted\<close> a transactional batch whose producer is in the aborted set, nothing
  of the batch is added to the messages, and yet the subscription goes on from what
  \<^verbatim>\<open>parseRecords\<close> has left: its offset is the offset of the last record of the batch
  that passed the offset filter (with the offset as the records before it have left
  it) plus one, or the previous offset plus one when no record passed. Short of the
  largest \<^verbatim>\<open>int64\<close>, this offset is above the previous one and above the offset of
  every record that the batch holds (it need not be above the last offset of the
  batch), so that the next request, which asks for the subscription's offset, asks for
  none of the records of the batch again.
\<close>

theorem skipped_batch_commits_offset:
  assumes "(dr_isControl records = Inr True \<and> dr_getControlRecord records = Inr t)
         \<or> (dr_isControl records = Inr False
            \<and> IsolationLevel (conf child) = ReadCommitted
            \<and> IsTransactional (dr_RecordBatch records)
            \<and> ProducerID (dr_RecordBatch records)
                \<in> fst (consumeAborted (LastOffset (dr_RecordBatch records)) pending aborted))"
  shows "parseRecordsSet child (defaultRecords records # rest) aborted pending messages =
      parseRecordsSet (fst (parseRecords child (dr_RecordBatch records))) rest
        (if dr_isControl records = Inr True \<and> t = ControlRecordAbort
         then fst (consumeAborted (LastOffset (dr_RecordBatch records)) pending aborted)
                - {ProducerID (dr_RecordBatch records)}
         else fst (consumeAborted (LastOffset (dr_RecordBatch records)) pending aborted))
        (snd (consumeAborted (LastOffset (dr_RecordBatch records)) pending aborted))
        messages
   \<and> fst (parseRecords child (dr_RecordBatch records)) =
       child\<lparr>offset :=
         (if delivered (recordOffset (dr_RecordBatch records)) (offset child)
               (Records (dr_RecordBatch records)) = []
          then offset child + 1
          else recordOffset (dr_RecordBatch records)
                 (last (delivered (recordOffset (dr_RecordBatch records)) (offset child)
                          (Records (dr_RecordBatch records)))) + 1)\<rparr>
   \<and> (if sint (offset child) < 9223372036854775807
          \<and> list_all (\<lambda>r. sint (recordOffset (dr_RecordBatch records) r) < 9223372036854775807)
               (Records (dr_RecordBatch records))
       then sint (offset child) < sint (offset (fst (parseRecords child (dr_RecordBatch records))))
          \<and> list_all (\<lambda>r. sint (recordOffset (dr_RecordBatch records) r)
                            < sint (offset (fst (parseRecords child (dr_RecordBatch records)))))
               (Records (dr_RecordBatch records))
          \<and> map rb_fetchOffset
               (blocks (addBlocks request
                  [(fst (parseRecords child (dr_RecordBatch records)))\<lparr>paused := 0\<rparr>]))
             = map rb_fetchOffset (blocks request)
               @ [offset (fst (parseRecords child (dr_RecordBatch records)))]
       else True)"
proof -
  let ?batch = "dr_RecordBatch records"
  obtain child' ms where p: "parseRecords child ?batch = (child', ms)"
    by (cases "parseRecords child ?batch")
  have k: "conf child' = conf child"
    using parseRecords_conf [of child ?batch] p by simp
  obtain aborted' pending' where
    ca: "consumeAborted (LastOffset ?batch) pending aborted = (aborted', pending')"
    by (cases "consumeAborted (LastOffset ?batch) pending aborted")
  have one: "parseRecordsSet child (defaultRecords records # rest) aborted pending messages =
      parseRecordsSet (fst (parseRecords child ?batch)) rest
        (if dr_isControl records = Inr True \<and> t = ControlRecordAbort
         then fst (consumeAborted (LastOffset ?batch) pending aborted) - {ProducerID ?batch}
         else fst (consumeAborted (LastOffset ?batch) pending aborted))
        (snd (consumeAborted (LastOffset ?batch) pending aborted))
        messages"
    using assms k by (auto simp: p ca)
  have two: "fst (parseRecords child ?batch) =
       child\<lparr>offset :=
         (if delivered (recordOffset ?batch) (offset child) (Records ?batch) = []
          then offset child + 1
          else recordOffset ?batch
                 (last (delivered (recordOffset ?batch) (offset child) (Records ?batch))) + 1)\<rparr>"
    by (simp add: parseRecords_eq offsetAfter_last)
  have three: "if sint (offset child) < 9223372036854775807
          \<and> list_all (\<lambda>r. sint (recordOffset ?batch r) < 9223372036854775807) (Records ?batch)
       then sint (offset child) < sint (offset (fst (parseRecords child ?batch)))
          \<and> list_all (\<lambda>r. sint (recordOffset ?batch r)
                            < sint (offset (fst (parseRecords child ?batch))))
               (Records ?batch)
          \<and> map rb_fetchOffset
               (blocks (addBlocks request [(fst (parseRecords child ?batch))\<lparr>paused := 0\<rparr>]))
             = map rb_fetchOffset (blocks request) @ [offset (fst (parseRecords child ?batch))]
       else True"
    using parseRecords_progress [of child ?batch]
    by (simp add: list_all_iff IsPaused_def)
  show ?thesis
    using one two three by blast
qed

theorem skipped_batch_commits_offset_witness:
  "parseRecordsSet (scenario_child 100)
      [scenario_control (scenario_batch 101 101 7 True [0, 1]) ControlRecordAbort] {7} [] []
   = (scenario_child 103, {}, [], Inr [])"
proof -
  let ?batch = "scenario_batch 101 101 7 True [0, 1]"
  let ?records = "\<lparr>dr_RecordBatch = ?batch, dr_isControl = Inr True,
                   dr_getControlRecord = Inr ControlRecordAbort\<rparr>"
  have a: "(dr_isControl ?records = Inr True
             \<and> dr_getControlRecord ?records = Inr ControlRecordAbort)
         \<or> (dr_isControl ?records = Inr False
            \<and> IsolationLevel (conf (scenario_child 100)) = ReadCommitted
            \<and> IsTransactional (dr_RecordBatch ?records)
            \<and> ProducerID (dr_RecordBatch ?records)
                \<in> fst (consumeAborted (LastOffset (dr_RecordBatch ?records)) [] {7}))"
    by simp
  have d: "delivered (recordOffset ?batch) (offset (scenario_child 100)) (Records ?batch)
             = [scenario_record 0, scenario_record 1]"
    by (simp add: scenario_defs recordOffset_def)
  have pid: "ProducerID ?batch = 7"
    by (simp add: scenario_batch_def)
  have o: "fst (parseRecords (scenario_child 100) ?batch) = scenario_child 103"
    using skipped_batch_commits_offset [OF a, of "[]" "[]" undefined,
        THEN conjunct2, THEN conjunct1]
    by (simp add: d) (simp add: scenario_defs recordOffset_def)
  have "parseRecordsSet (scenario_child 100) [defaultRecords ?records] {7} [] []
          = (scenario_child 103, {}, [], Inr [])"
    using skipped_batch_commits_offset [OF a, of "[]" "[]" undefined, THEN conjunct1]
    by (simp add: o pid)
  then show ?thesis by (simp add: scenario_control_def)
qed

subsection \<open>The offset does not go back\<close>


lemma advance_bounds:
  assumes "\<forall>r\<in>set rs. sint (off r) < u" and "u < 9223372036854775807" and "sint cur \<le> u"
  shows "sint cur \<le> sint (if delivered off cur rs = [] then cur + 1 else offsetAfter off cur rs)
       \<and> sint (if delivered off cur rs = [] then cur + 1 else offsetAfter off cur rs) \<le> u + 1"
proof (cases "delivered off cur rs = []")
  case True
  have "sint (cur + 1) = sint cur + 1"
    using assms by (intro sint_succ) simp
  then show ?thesis using True assms by simp
next
  case False
  have "u \<le> 9223372036854775807" using assms(2) by simp
  then show ?thesis
    using False offsetAfter_bounds [OF assms(1) _ assms(3)] by simp
qed

lemma parseRecords_bounds:
  assumes "list_all (\<lambda>r. sint (recordOffset batch r) < 4611686018427387904) (Records batch)"
    and "4611686018427387904 \<le> u" and "u < 9223372036854775807"
    and "sint (offset child) \<le> u"
  shows "sint (offset child) \<le> sint (offset (fst (parseRecords child batch)))
       \<and> sint (offset (fst (parseRecords child batch))) \<le> u + 1"
proof -
  have "\<forall>r\<in>set (Records batch). sint (recordOffset batch r) < u"
    using assms(1,2) by (fastforce simp: list_all_iff)
  then show ?thesis
    using advance_bounds [of "Records batch" "recordOffset batch" u "offset child"] assms(3,4)
    by (simp add: parseRecords_eq)
qed

lemma parseMessages_bounds:
  assumes "list_all (\<lambda>item. sint (legacyOffset item) < 4611686018427387904) (legacyItems msgSet)"
    and "4611686018427387904 \<le> u" and "u < 9223372036854775807"
    and "sint (offset child) \<le> u"
  shows "sint (offset child) \<le> sint (offset (fst (parseMessages child msgSet)))
       \<and> sint (offset (fst (parseMessages child msgSet))) \<le> u + 1"
proof -
  have "\<forall>r\<in>set (legacyItems msgSet). sint (legacyOffset r) < u"
    using assms(1,2) by (fastforce simp: list_all_iff)
  then show ?thesis
    using advance_bounds [of "legacyItems msgSet" legacyOffset u "offset child"] assms(3,4)
    by (simp add: parseMessages_eq)
qed

lemma parseRecordsSet_bounds:
  "list_all recordsInRange rs \<Longrightarrow> 4611686018427387904 \<le> u \<Longrightarrow>
   u + int (length rs) \<le> 9223372036854775807 \<Longrightarrow> sint (offset child) \<le> u \<Longrightarrow>
     sint (offset child) \<le> sint (offset (fst (parseRecordsSet child rs A P ms)))
   \<and> sint (offset (fst (parseRecordsSet child rs A P ms))) \<le> u + int (length rs)"
proof (induction rs arbitrary: child A P ms u)
  case Nil
  then show ?case by simp
next
  case (Cons x rs)
  show ?case
  proof (cases x)
    case (legacyRecords msgSet)
    let ?c = "fst (parseMessages child msgSet)"
    have b: "sint (offset child) \<le> sint (offset ?c) \<and> sint (offset ?c) \<le> u + 1"
      using parseMessages_bounds [of msgSet u child] Cons.prems legacyRecords by simp
    have ih: "sint (offset ?c) \<le> sint (offset (fst (parseRecordsSet ?c rs A' P' ms')))
       \<and> sint (offset (fst (parseRecordsSet ?c rs A' P' ms'))) \<le> u + 1 + int (length rs)"
      for A' P' ms'
      using Cons.IH [of "u + 1" ?c A' P' ms'] Cons.prems b by simp
    show ?thesis
      using b ih [of A P "ms @ snd (parseMessages child msgSet)"] legacyRecords
      by (simp add: split_def)
  next
    case (defaultRecords records)
    let ?c = "fst (parseRecords child (dr_RecordBatch records))"
    have b: "sint (offset child) \<le> sint (offset ?c) \<and> sint (offset ?c) \<le> u + 1"
      using parseRecords_bounds [of "dr_RecordBatch records" u child] Cons.prems defaultRecords
      by simp
    have ih: "sint (offset ?c) \<le> sint (offset (fst (parseRecordsSet ?c rs A' P' ms')))
       \<and> sint (offset (fst (parseRecordsSet ?c rs A' P' ms'))) \<le> u + 1 + int (length rs)"
      for A' P' ms'
      using Cons.IH [of "u + 1" ?c A' P' ms'] Cons.prems b by simp
    have "fst (parseRecordsSet child (x # rs) A P ms) = ?c
        \<or> (\<exists>A' P' ms'. fst (parseRecordsSet child (x # rs) A P ms)
              = fst (parseRecordsSet ?c rs A' P' ms'))"
      unfolding defaultRecords
      by (simp add: split_def split: sum.splits bool.splits) blast
    then show ?thesis
    proof (elim disjE exE)
      assume e: "fst (parseRecordsSet child (x # rs) A P ms) = ?c"
      show ?thesis unfolding e using b by simp
    next
      fix A' P' ms'
      assume e: "fst (parseRecordsSet child (x # rs) A P ms)
              = fst (parseRecordsSet ?c rs A' P' ms')"
      show ?thesis unfolding e using b ih [of A' P' ms'] by simp
    qed
  next
    case unknownRecords
    then show ?thesis using Cons.prems by simp
  qed
qed


lemma growFetchSize_offset_mono:
  assumes "sint (offset c) < 9223372036854775807"
  shows "sint (offset c) \<le> sint (offset (growFetchSize c))"
  using sint_succ [OF assms]
  by (simp add: growFetchSize_def sendError_def Let_def)

lemma parseResponse_mono:
  assumes "responseInRange child response"
  shows "sint (offset child) \<le> sint (offset (fst (parseResponse child response)))"
proof (cases "GetBlock response (topic child) (partition child)")
  case None
  then show ?thesis by (simp add: parseResponse_def)
next
  case (Some block)
  have o: "sint (offset child) < 4611686018427387904"
    and len: "int (length (RecordsSet block)) < 4611686018427387904"
    and rng: "list_all recordsInRange (RecordsSet block)"
    using assms Some by (simp_all add: responseInRange_def)
  define child1 where "child1 =
     (if PreferredReadReplica block \<noteq> invalidPreferredReplicaID
      then child\<lparr>preferredReadReplica := PreferredReadReplica block\<rparr> else child)"
  have o1: "offset child1 = offset child" by (simp add: child1_def)
  have grow: "sint (offset child) \<le> sint (offset (growFetchSize child1))"
    using growFetchSize_offset_mono [of child1] o o1 by simp
  have recs: "sint (offset child) \<le> sint (offset (fst (parseRecordsSet
       (child1\<lparr>fetchSize := Fetch_Default (conf child1),
                highWaterMarkOffset := HighWaterMarkOffset block\<rparr>)
       (RecordsSet block) {} (getAbortedTransactions block) [])))"
    using parseRecordsSet_bounds [OF rng, of 4611686018427387904
        "child1\<lparr>fetchSize := Fetch_Default (conf child1),
                 highWaterMarkOffset := HighWaterMarkOffset block\<rparr>"
        "{}" "getAbortedTransactions block" "[]"] o o1 len
    by simp
  have nxt: "recordsNextOffset block = Some n \<Longrightarrow> numRecords block = Inr 0 \<Longrightarrow>
      isPartial block = Inr False \<Longrightarrow> sint n \<le> sint (HighWaterMarkOffset block) \<Longrightarrow>
      sint (offset child) \<le> sint n" for n
    using assms Some by (simp add: responseInRange_def nextOffsetAssigned_def)
  show ?thesis
    using Some grow recs nxt
    unfolding child1_def
    by (auto simp: parseResponse_def Let_def split_def
        split: sum.splits option.splits if_splits)
qed

lemma offsetTrace_ge:
  "runInRange child responses \<Longrightarrow>
     \<forall>y\<in>set (offsetTrace child responses). sint (offset child) \<le> sint y"
proof (induction responses arbitrary: child)
  case Nil
  then show ?case by simp
next
  case (Cons r rs)
  have "sint (offset child) \<le> sint (offset (fst (parseResponse child r)))"
    using Cons.prems parseResponse_mono by simp
  then show ?case
    using Cons.IH [of "fst (parseResponse child r)"] Cons.prems by fastforce
qed

lemma offsetTrace_sorted:
  "runInRange child responses \<Longrightarrow> sorted (map sint (offsetTrace child responses))"
proof (induction responses arbitrary: child)
  case Nil
  then show ?case by simp
next
  case (Cons r rs)
  have "\<forall>y\<in>set (offsetTrace (fst (parseResponse child r)) rs). sint (offset child) \<le> sint y"
    using offsetTrace_ge [of child "r # rs"] Cons.prems by simp
  then show ?case
    using Cons.IH [of "fst (parseResponse child r)"] Cons.prems by simp
qed

lemma offsetTrace_nonempty: "offsetTrace child responses \<noteq> []"
  by (cases responses) simp_all

lemma offsetTrace_last:
  "last (offsetTrace child responses) = offset (fst (parseResponses child responses))"
  by (induction responses arbitrary: child) (simp_all add: split_def offsetTrace_nonempty)



text \<open>
  Claim C4, as stated, fails: on a block without records and without a partial trailing
  message, \<^verbatim>\<open>parseResponse\<close> sets the offset to the block's next offset whenever that is
  at most the high water mark, also when it is below the subscription's offset. A
  subscription at offset 50 that is given such a block with next offset 10 ends at
  offset 10.
\<close>

theorem offset_decreases_counterexample:
  "sint (offset (fst (parseResponse (scenario_child 50)
            (scenario_response (scenario_block [] [] 0 False (Some 10))))))
     < sint (offset (scenario_child 50))"
  by (simp add: parseResponse_def GetBlock_def scenario_defs invalidPreferredReplicaID_def)

text \<open>
  Claim C4, amended. Along every run of responses that is in range (before each call
  the subscription's offset is below \<open>2^62\<close>, the block has fewer than \<open>2^62\<close> batches
  whose record offsets are below \<open>2^62\<close>, and the next offset of the records, where the
  path without records assigns it, is not below the subscription's offset) the offset
  of the subscription never decreases: the offsets before the first call and after each
  call are in ascending order, and the last is not below the first. This covers the
  advance by one after \<open>ErrMessageTooLarge\<close>, the assignment of the next offset, and the
  advances of \<^verbatim>\<open>parseRecords\<close> and \<^verbatim>\<open>parseMessages\<close>.
\<close>

theorem offset_never_decreases_in_range:
  assumes "runInRange child responses"
  shows "sorted (map sint (offsetTrace child responses))
       \<and> sint (offset child) \<le> sint (offset (fst (parseResponses child responses)))"
proof -
  have "last (offsetTrace child responses) \<in> set (offsetTrace child responses)"
    by (simp add: offsetTrace_nonempty)
  then have "sint (offset child) \<le> sint (last (offsetTrace child responses))"
    using offsetTrace_ge [OF assms] by blast
  then show ?thesis
    using offsetTrace_sorted [OF assms] by (simp add: offsetTrace_last)
qed

theorem offset_never_decreases_in_range_witness:
  "sorted (map sint (offsetTrace (scenario_child 42)
      [scenario_response (scenario_block
         [scenario_data (scenario_batch 40 43 (- 1) False [0, 1, 2, 3])] [] 4 False None),
       scenario_response (scenario_block [] [] 0 False (Some 50))]))
   \<and> sint (offset (scenario_child 42))
       \<le> sint (offset (fst (parseResponses (scenario_child 42)
      [scenario_response (scenario_block
         [scenario_data (scenario_batch 40 43 (- 1) False [0, 1, 2, 3])] [] 4 False None),
       scenario_response (scenario_block [] [] 0 False (Some 50))])))"
proof -
  have r: "runInRange (scenario_child 42)
      [scenario_response (scenario_block
         [scenario_data (scenario_batch 40 43 (- 1) False [0, 1, 2, 3])] [] 4 False None),
       scenario_response (scenario_block [] [] 0 False (Some 50))]"
    by (simp add: responseInRange_def nextOffsetAssigned_def parseResponse_def GetBlock_def
        scenario_defs parseRecords_def invalidPreferredReplicaID_def recordOffset_def Let_def)
  show ?thesis
    by (rule offset_never_decreases_in_range [OF r])
qed

subsection \<open>A batch of which nothing is delivered\<close>




subsection \<open>The offset filter over a block\<close>

lemma delivered_range:
  assumes "\<forall>r\<in>set rs. sint (off r) < u" and "u \<le> 9223372036854775807"
  shows "sint cur \<le> u \<Longrightarrow>
     (\<forall>r\<in>set (delivered off cur rs).
         sint cur \<le> sint (off r) \<and> sint (off r) < sint (offsetAfter off cur rs))
     \<and> sorted_wrt (<) (map (\<lambda>r. sint (off r)) (delivered off cur rs))"
  using assms(1)
proof (induction rs arbitrary: cur)
  case Nil
  then show ?case by simp
next
  case (Cons r rs)
  show ?case
  proof (cases "sint (off r) < sint cur")
    case True
    then show ?thesis using Cons by simp
  next
    case False
    have s: "sint (off r + 1) = sint (off r) + 1"
      using Cons.prems assms(2) by (intro sint_succ) auto
    have le: "sint (off r + 1) \<le> u" using Cons.prems s by auto
    have rs: "\<forall>r\<in>set rs. sint (off r) < u" using Cons.prems by simp
    have b: "sint (off r + 1) \<le> sint (offsetAfter off (off r + 1) rs)"
      using offsetAfter_bounds [OF rs assms(2) le] by simp
    have ih: "(\<forall>x\<in>set (delivered off (off r + 1) rs).
         sint (off r + 1) \<le> sint (off x) \<and> sint (off x) < sint (offsetAfter off (off r + 1) rs))
       \<and> sorted_wrt (<) (map (\<lambda>r. sint (off r)) (delivered off (off r + 1) rs))"
      using Cons.IH [OF le rs] .
    show ?thesis
      using False s b ih by auto
  qed
qed


lemma deliveredBetween_Nil: "deliveredBetween lo hi []"
  by (simp add: deliveredBetween_def)

lemma deliveredBetween_append:
  assumes "deliveredBetween lo mid xs" and "deliveredBetween mid' hi ys"
    and "sint lo \<le> sint mid" and "sint mid \<le> sint mid'" and "sint mid' \<le> sint hi"
  shows "deliveredBetween lo hi (xs @ ys)"
  using assms
  by (fastforce simp: deliveredBetween_def sorted_wrt_append list_all_iff)

lemma deliveredBetween_widen:
  assumes "deliveredBetween mid hi ys" and "sint lo \<le> sint mid"
  shows "deliveredBetween lo hi ys"
  using assms by (fastforce simp: deliveredBetween_def list_all_iff)

lemma advance_delivered:
  assumes "\<forall>r\<in>set rs. sint (off r) < u" and "u < 9223372036854775807" and "sint cur \<le> u"
    and "\<And>r. cm_Offset (mk r) = off r"
  shows "deliveredBetween cur
           (if delivered off cur rs = [] then cur + 1 else offsetAfter off cur rs)
           (map mk (delivered off cur rs))"
proof -
  have u: "u \<le> 9223372036854775807" using assms(2) by simp
  have "(\<forall>r\<in>set (delivered off cur rs).
         sint cur \<le> sint (off r) \<and> sint (off r) < sint (offsetAfter off cur rs))
     \<and> sorted_wrt (<) (map (\<lambda>r. sint (off r)) (delivered off cur rs))"
    using delivered_range [OF assms(1) u assms(3)] .
  then show ?thesis
    by (auto simp: deliveredBetween_def list_all_iff assms(4) comp_def)
qed

lemma parseRecords_delivered:
  assumes "list_all (\<lambda>r. sint (recordOffset batch r) < 4611686018427387904) (Records batch)"
    and "4611686018427387904 \<le> u" and "u < 9223372036854775807"
    and "sint (offset child) \<le> u"
  shows "deliveredBetween (offset child) (offset (fst (parseRecords child batch)))
           (snd (parseRecords child batch))"
proof -
  have "\<forall>r\<in>set (Records batch). sint (recordOffset batch r) < u"
    using assms(1,2) by (fastforce simp: list_all_iff)
  then show ?thesis
    using advance_delivered [of "Records batch" "recordOffset batch" u "offset child"
        "recordMessage child batch"] assms(3,4)
    by (simp add: parseRecords_eq recordMessage_def)
qed

lemma parseMessages_delivered:
  assumes "list_all (\<lambda>item. sint (legacyOffset item) < 4611686018427387904) (legacyItems msgSet)"
    and "4611686018427387904 \<le> u" and "u < 9223372036854775807"
    and "sint (offset child) \<le> u"
  shows "deliveredBetween (offset child) (offset (fst (parseMessages child msgSet)))
           (snd (parseMessages child msgSet))"
proof -
  have "\<forall>r\<in>set (legacyItems msgSet). sint (legacyOffset r) < u"
    using assms(1,2) by (fastforce simp: list_all_iff)
  then show ?thesis
    using advance_delivered [of "legacyItems msgSet" legacyOffset u "offset child"
        "legacyMessage child"] assms(3,4)
    by (simp add: parseMessages_eq legacyMessage_def split_def)
qed


lemma parseRecordsSet_delivered:
  "list_all recordsInRange rs \<Longrightarrow> 4611686018427387904 \<le> u \<Longrightarrow>
   u + int (length rs) \<le> 9223372036854775807 \<Longrightarrow> sint (offset child) \<le> u \<Longrightarrow>
   snd (snd (snd (parseRecordsSet child rs A P ms))) = Inr out \<Longrightarrow>
   \<exists>new. out = ms @ new
     \<and> deliveredBetween (offset child) (offset (fst (parseRecordsSet child rs A P ms))) new"
proof (induction rs arbitrary: child A P ms u out)
  case Nil
  then show ?case by (simp add: deliveredBetween_Nil)
next
  case (Cons x rs)
  show ?case
  proof (cases x)
    case (legacyRecords msgSet)
    let ?c = "fst (parseMessages child msgSet)"
    let ?b = "snd (parseMessages child msgSet)"
    have u: "u < 9223372036854775807" using Cons.prems by simp
    have rng: "list_all (\<lambda>item. sint (legacyOffset item) < 4611686018427387904)
                 (legacyItems msgSet)"
      using Cons.prems legacyRecords by simp
    have b: "sint (offset child) \<le> sint (offset ?c) \<and> sint (offset ?c) \<le> u + 1"
      using parseMessages_bounds [OF rng Cons.prems(2) u Cons.prems(4)] .
    have d: "deliveredBetween (offset child) (offset ?c) ?b"
      using parseMessages_delivered [OF rng Cons.prems(2) u Cons.prems(4)] .
    have rest: "list_all recordsInRange rs" using Cons.prems by simp
    have len: "u + 1 + int (length rs) \<le> 9223372036854775807" using Cons.prems by simp
    have u1: "4611686018427387904 \<le> u + 1" using Cons.prems by simp
    have e: "parseRecordsSet child (x # rs) A P ms = parseRecordsSet ?c rs A P (ms @ ?b)"
      unfolding legacyRecords by (simp add: split_def)
    have m: "sint (offset ?c) \<le> sint (offset (fst (parseRecordsSet ?c rs A P (ms @ ?b))))"
      using parseRecordsSet_bounds [OF rest u1 len, of ?c A P "ms @ ?b"] b by simp
    obtain new where n: "out = (ms @ ?b) @ new"
      and dn: "deliveredBetween (offset ?c)
                 (offset (fst (parseRecordsSet ?c rs A P (ms @ ?b)))) new"
      using Cons.IH [OF rest u1 len, of ?c A P "ms @ ?b" out] b Cons.prems(5) e by auto
    have "deliveredBetween (offset child)
            (offset (fst (parseRecordsSet ?c rs A P (ms @ ?b)))) (?b @ new)"
      using deliveredBetween_append [OF d dn] b m by simp
    then show ?thesis using n e by simp
  next
    case (defaultRecords records)
    let ?batch = "dr_RecordBatch records"
    let ?c = "fst (parseRecords child ?batch)"
    let ?b = "snd (parseRecords child ?batch)"
    have u: "u < 9223372036854775807" using Cons.prems by simp
    have rng: "list_all (\<lambda>r. sint (recordOffset ?batch r) < 4611686018427387904)
                 (Records ?batch)"
      using Cons.prems defaultRecords by simp
    have b: "sint (offset child) \<le> sint (offset ?c) \<and> sint (offset ?c) \<le> u + 1"
      using parseRecords_bounds [OF rng Cons.prems(2) u Cons.prems(4)] .
    have d: "deliveredBetween (offset child) (offset ?c) ?b"
      using parseRecords_delivered [OF rng Cons.prems(2) u Cons.prems(4)] .
    have rest: "list_all recordsInRange rs" using Cons.prems by simp
    have len: "u + 1 + int (length rs) \<le> 9223372036854775807" using Cons.prems by simp
    have u1: "4611686018427387904 \<le> u + 1" using Cons.prems by simp
    have shape: "(\<exists>e A' P'. parseRecordsSet child (x # rs) A P ms = (?c, A', P', Inl e))
       \<or> (\<exists>A' P'. parseRecordsSet child (x # rs) A P ms = parseRecordsSet ?c rs A' P' ms)
       \<or> (\<exists>A' P'. parseRecordsSet child (x # rs) A P ms
                     = parseRecordsSet ?c rs A' P' (ms @ ?b))"
      unfolding defaultRecords
      by (simp add: split_def split: sum.splits bool.splits) blast
    then show ?thesis
    proof (elim disjE exE)
      fix e A' P'
      assume "parseRecordsSet child (x # rs) A P ms = (?c, A', P', Inl e)"
      then show ?thesis using Cons.prems(5) by simp
    next
      fix A' P'
      assume e: "parseRecordsSet child (x # rs) A P ms = parseRecordsSet ?c rs A' P' ms"
      obtain new where n: "out = ms @ new"
        and dn: "deliveredBetween (offset ?c)
                   (offset (fst (parseRecordsSet ?c rs A' P' ms))) new"
        using Cons.IH [OF rest u1 len, of ?c A' P' ms out] b Cons.prems(5) e by auto
      have "deliveredBetween (offset child)
              (offset (fst (parseRecordsSet ?c rs A' P' ms))) new"
        using deliveredBetween_widen [OF dn] b by simp
      then show ?thesis using n e by simp
    next
      fix A' P'
      assume e: "parseRecordsSet child (x # rs) A P ms
                   = parseRecordsSet ?c rs A' P' (ms @ ?b)"
      have m: "sint (offset ?c)
                 \<le> sint (offset (fst (parseRecordsSet ?c rs A' P' (ms @ ?b))))"
        using parseRecordsSet_bounds [OF rest u1 len, of ?c A' P' "ms @ ?b"] b by simp
      obtain new where n: "out = (ms @ ?b) @ new"
        and dn: "deliveredBetween (offset ?c)
                   (offset (fst (parseRecordsSet ?c rs A' P' (ms @ ?b)))) new"
        using Cons.IH [OF rest u1 len, of ?c A' P' "ms @ ?b" out] b Cons.prems(5) e by auto
      have "deliveredBetween (offset child)
              (offset (fst (parseRecordsSet ?c rs A' P' (ms @ ?b)))) (?b @ new)"
        using deliveredBetween_append [OF d dn] b m by simp
      then show ?thesis using n e by simp
    qed
  next
    case unknownRecords
    then show ?thesis using Cons.prems by simp
  qed
qed


lemma parseResponse_records:
  assumes "GetBlock response (topic child) (partition child) = Some block"
    and "Err block = ErrNoError" and "numRecords block = Inr n" and "n \<noteq> 0"
  shows "parseResponse child response =
     (fst (parseRecordsSet (recordsChild child block) (RecordsSet block) {}
             (getAbortedTransactions block) []),
      snd (snd (snd (parseRecordsSet (recordsChild child block) (RecordsSet block) {}
             (getAbortedTransactions block) []))))"
proof -
  have nb: "Blocks response \<noteq> []"
    using assms(1) by (auto simp: GetBlock_def)
  show ?thesis
    using assms nb
    by (simp add: parseResponse_def recordsChild_def Let_def split_def)
qed

lemma parseResponse_delivered:
  assumes "responseInRange child response"
    and "snd (parseResponse child response) = Inr out"
  shows "deliveredBetween (offset child) (offset (fst (parseResponse child response))) out"
proof (cases "GetBlock response (topic child) (partition child)")
  case None
  then have "out = []"
    using assms(2) by (simp add: parseResponse_def split: if_splits)
  then show ?thesis by (simp add: deliveredBetween_Nil)
next
  case (Some block)
  show ?thesis
  proof (cases "\<exists>n. Err block = ErrNoError \<and> numRecords block = Inr n \<and> n \<noteq> 0")
    case True
    then obtain n where e: "Err block = ErrNoError" and n: "numRecords block = Inr n"
      and nz: "n \<noteq> 0" by blast
    let ?c = "recordsChild child block"
    let ?L = "parseRecordsSet ?c (RecordsSet block) {} (getAbortedTransactions block) []"
    have pr: "parseResponse child response = (fst ?L, snd (snd (snd ?L)))"
      using parseResponse_records [OF Some e n nz] .
    have o: "sint (offset ?c) \<le> 4611686018427387904"
      and len: "4611686018427387904 + int (length (RecordsSet block)) \<le> 9223372036854775807"
      and rng: "list_all recordsInRange (RecordsSet block)"
      using assms(1) Some by (simp_all add: responseInRange_def recordsChild_def)
    have r: "snd (snd (snd ?L)) = Inr out"
      using assms(2) pr by simp
    obtain new where "out = [] @ new"
      and "deliveredBetween (offset ?c) (offset (fst ?L)) new"
      using parseRecordsSet_delivered [OF rng order_refl len o r] by blast
    then show ?thesis
      by (simp add: pr recordsChild_def)
  next
    case False
    then have "out = []"
      using assms(2) Some
      by (auto simp: parseResponse_def Let_def split: if_splits sum.splits option.splits)
    then show ?thesis by (simp add: deliveredBetween_Nil)
  qed
qed

lemma parseRecordsSet_legacy:
  "parseRecordsSet child (legacyRecords msgSet # rest) aborted pending messages =
     parseRecordsSet
       (child\<lparr>offset :=
          (if delivered legacyOffset (offset child) (legacyItems msgSet) = []
           then offset child + 1
           else offsetAfter legacyOffset (offset child) (legacyItems msgSet))\<rparr>)
       rest aborted pending
       (messages @ map (legacyMessage child)
                     (delivered legacyOffset (offset child) (legacyItems msgSet)))"
  by (simp add: parseMessages_eq)

lemma parseRecordsSet_emitted:
  assumes "dr_isControl records = Inr False"
    and "\<not> (IsolationLevel (conf child) = ReadCommitted
           \<and> IsTransactional (dr_RecordBatch records)
           \<and> ProducerID (dr_RecordBatch records)
               \<in> aborted \<union> atx_ProducerID `
                   set (takeWhile (beginsBy (LastOffset (dr_RecordBatch records))) pending))"
  shows "parseRecordsSet child (defaultRecords records # rest) aborted pending messages =
     parseRecordsSet
       (child\<lparr>offset :=
          (if delivered (recordOffset (dr_RecordBatch records)) (offset child)
                (Records (dr_RecordBatch records)) = []
           then offset child + 1
           else offsetAfter (recordOffset (dr_RecordBatch records)) (offset child)
                  (Records (dr_RecordBatch records)))\<rparr>)
       rest
       (aborted \<union> atx_ProducerID `
          set (takeWhile (beginsBy (LastOffset (dr_RecordBatch records))) pending))
       (dropWhile (beginsBy (LastOffset (dr_RecordBatch records))) pending)
       (messages @ map (recordMessage child (dr_RecordBatch records))
                     (delivered (recordOffset (dr_RecordBatch records)) (offset child)
                        (Records (dr_RecordBatch records))))"
  using assms by (auto simp: parseRecords_eq consumeAborted_eq)

lemma S1_committed:
  "parseResponse (scenario_child 42)
        (scenario_response (scenario_block
           [scenario_data (scenario_batch 40 43 (- 1) False [0, 1, 2, 3])] [] 4 False None))
      = ((scenario_child 44)\<lparr>highWaterMarkOffset := 1000\<rparr>,
         Inr (map (recordMessage (scenario_child 42) (scenario_batch 40 43 (- 1) False [0, 1, 2, 3]))
                [scenario_record 2, scenario_record 3]))"
  by (simp add: parseResponse_def GetBlock_def scenario_defs parseRecords_def
      invalidPreferredReplicaID_def recordMessage_def recordOffset_def Let_def)

lemma S1_uncommitted:
  "parseResponse ((scenario_child 42)\<lparr>conf := scenario_conf\<lparr>IsolationLevel := ReadUncommitted\<rparr>\<rparr>)
        (scenario_response (scenario_block
           [scenario_data (scenario_batch 40 43 (- 1) False [0, 1, 2, 3])] [] 4 False None))
      = ((scenario_child 44)\<lparr>conf := scenario_conf\<lparr>IsolationLevel := ReadUncommitted\<rparr>,
                               highWaterMarkOffset := 1000\<rparr>,
         Inr (map (recordMessage (scenario_child 42) (scenario_batch 40 43 (- 1) False [0, 1, 2, 3]))
                [scenario_record 2, scenario_record 3]))"
  by (simp add: parseResponse_def GetBlock_def scenario_defs parseRecords_def
      invalidPreferredReplicaID_def recordMessage_def recordOffset_def Let_def)

lemma S1_legacy:
  "parseResponse (scenario_child 42)
        (scenario_response (scenario_block
           [legacyRecords [scenario_message_block 40, scenario_message_block 41,
                           scenario_message_block 42, scenario_message_block 43]]
           [] 4 False None))
      = ((scenario_child 44)\<lparr>highWaterMarkOffset := 1000\<rparr>,
         Inr (map (\<lambda>off. legacyMessage (scenario_child 42)
                     (scenario_message_block off, hd (mb_Messages (scenario_message_block off))))
                [42, 43]))"
  by (simp add: parseResponse_def GetBlock_def scenario_defs parseMessages_def
      scenario_message_block_def scenario_message_def
      invalidPreferredReplicaID_def legacyMessage_def legacyOffset_def Let_def)


text \<open>
  Claim C1. For every block that is parsed for a subscription, the records are filtered
  by the rule of the offset filter: a record below the subscription's current offset is
  discarded, any other record is delivered and the offset becomes its offset plus one.
  For one batch and for one legacy message set, the messages that \<^verbatim>\<open>parseRecords\<close> and
  \<^verbatim>\<open>parseMessages\<close> return are the records that the rule delivers, each delivered
  offset is at least the offset that the record before it has left, and when something
  was delivered the subscription ends at the last delivered offset plus one. The loop
  of \<^verbatim>\<open>parseResponse\<close> over the records of the block ends with the messages
  collected; it adds to them, for a legacy message set and for a batch that is neither
  a control batch nor dropped as aborted, under either isolation level, exactly the
  messages that the rule delivers from the subscription's offset, and goes on with
  the offset that the rule leaves (or one further when nothing was delivered); a block
  that has records is parsed by this loop. For a response in range (offsets below
  \<open>2^62\<close>), the messages that \<^verbatim>\<open>parseResponse\<close> returns have strictly ascending
  offsets, none below the subscription's offset before the call and all below its
  offset after the call. In scenario S1 a subscription at offset 42 that is given the
  records 40, 41, 42, 43 delivers 42 and 43 and ends at offset 44, under
  \<open>ReadCommitted\<close>, under \<open>ReadUncommitted\<close> and for a legacy message set.
\<close>

theorem offset_filter_and_advance:
  "snd (parseRecords child batch) =
     map (recordMessage child batch)
       (delivered (recordOffset batch) (offset child) (Records batch))
   \<and> deliveredFrom (offset child) (map cm_Offset (snd (parseRecords child batch)))
   \<and> (snd (parseRecords child batch) \<noteq> [] \<longrightarrow>
        fst (parseRecords child batch) =
          child\<lparr>offset := cm_Offset (last (snd (parseRecords child batch))) + 1\<rparr>)
   \<and> snd (parseMessages child msgSet) =
       map (legacyMessage child) (delivered legacyOffset (offset child) (legacyItems msgSet))
   \<and> deliveredFrom (offset child) (map cm_Offset (snd (parseMessages child msgSet)))
   \<and> (snd (parseMessages child msgSet) \<noteq> [] \<longrightarrow>
        fst (parseMessages child msgSet) =
          child\<lparr>offset := cm_Offset (last (snd (parseMessages child msgSet))) + 1\<rparr>)
   \<and> parseRecordsSet child [] aborted pending messages =
       (child, aborted, pending, Inr messages)
   \<and> parseRecordsSet child (legacyRecords msgSet # rest) aborted pending messages =
       parseRecordsSet
         (child\<lparr>offset :=
            (if delivered legacyOffset (offset child) (legacyItems msgSet) = []
             then offset child + 1
             else offsetAfter legacyOffset (offset child) (legacyItems msgSet))\<rparr>)
         rest aborted pending
         (messages @ map (legacyMessage child)
                       (delivered legacyOffset (offset child) (legacyItems msgSet)))
   \<and> (dr_isControl records = Inr False
        \<and> \<not> (IsolationLevel (conf child) = ReadCommitted
              \<and> IsTransactional (dr_RecordBatch records)
              \<and> ProducerID (dr_RecordBatch records)
                  \<in> aborted \<union> atx_ProducerID `
                      set (takeWhile (beginsBy (LastOffset (dr_RecordBatch records))) pending))
       \<longrightarrow> parseRecordsSet child (defaultRecords records # rest) aborted pending messages =
             parseRecordsSet
               (child\<lparr>offset :=
                  (if delivered (recordOffset (dr_RecordBatch records)) (offset child)
                        (Records (dr_RecordBatch records)) = []
                   then offset child + 1
                   else offsetAfter (recordOffset (dr_RecordBatch records)) (offset child)
                          (Records (dr_RecordBatch records)))\<rparr>)
               rest
               (aborted \<union> atx_ProducerID `
                  set (takeWhile (beginsBy (LastOffset (dr_RecordBatch records))) pending))
               (dropWhile (beginsBy (LastOffset (dr_RecordBatch records))) pending)
               (messages @ map (recordMessage child (dr_RecordBatch records))
                             (delivered (recordOffset (dr_RecordBatch records)) (offset child)
                                (Records (dr_RecordBatch records)))))
   \<and> (GetBlock response (topic child) (partition child) = Some block
        \<and> Err block = ErrNoError \<and> numRecords block = Inr n \<and> n \<noteq> 0
       \<longrightarrow> parseResponse child response =
             (fst (parseRecordsSet (recordsChild child block) (RecordsSet block) {}
                     (getAbortedTransactions block) []),
              snd (snd (snd (parseRecordsSet (recordsChild child block) (RecordsSet block) {}
                     (getAbortedTransactions block) [])))))
   \<and> (responseInRange child response \<and> snd (parseResponse child response) = Inr out
       \<longrightarrow> deliveredBetween (offset child) (offset (fst (parseResponse child response))) out)
   \<and> parseResponse (scenario_child 42)
        (scenario_response (scenario_block
           [scenario_data (scenario_batch 40 43 (- 1) False [0, 1, 2, 3])] [] 4 False None))
      = ((scenario_child 44)\<lparr>highWaterMarkOffset := 1000\<rparr>,
         Inr (map (recordMessage (scenario_child 42) (scenario_batch 40 43 (- 1) False [0, 1, 2, 3]))
                [scenario_record 2, scenario_record 3]))
   \<and> parseResponse
        ((scenario_child 42)\<lparr>conf := scenario_conf\<lparr>IsolationLevel := ReadUncommitted\<rparr>\<rparr>)
        (scenario_response (scenario_block
           [scenario_data (scenario_batch 40 43 (- 1) False [0, 1, 2, 3])] [] 4 False None))
      = ((scenario_child 44)\<lparr>conf := scenario_conf\<lparr>IsolationLevel := ReadUncommitted\<rparr>,
                               highWaterMarkOffset := 1000\<rparr>,
         Inr (map (recordMessage (scenario_child 42) (scenario_batch 40 43 (- 1) False [0, 1, 2, 3]))
                [scenario_record 2, scenario_record 3]))
   \<and> parseResponse (scenario_child 42)
        (scenario_response (scenario_block
           [legacyRecords [scenario_message_block 40, scenario_message_block 41,
                           scenario_message_block 42, scenario_message_block 43]]
           [] 4 False None))
      = ((scenario_child 44)\<lparr>highWaterMarkOffset := 1000\<rparr>,
         Inr (map (\<lambda>off. legacyMessage (scenario_child 42)
                     (scenario_message_block off, hd (mb_Messages (scenario_message_block off))))
                [42, 43]))"
proof -
  have records: "deliveredFrom (offset child) (map cm_Offset (snd (parseRecords child batch)))"
    by (simp add: parseRecords_eq cm_Offset_recordMessage delivered_deliveredFrom)
  have legacy: "deliveredFrom (offset child) (map cm_Offset (snd (parseMessages child msgSet)))"
    by (simp add: parseMessages_eq cm_Offset_legacyMessage delivered_deliveredFrom)
  have records_last: "snd (parseRecords child batch) \<noteq> [] \<longrightarrow>
        fst (parseRecords child batch) =
          child\<lparr>offset := cm_Offset (last (snd (parseRecords child batch))) + 1\<rparr>"
    by (simp add: parseRecords_eq offsetAfter_last last_map recordMessage_def)
  have legacy_last: "snd (parseMessages child msgSet) \<noteq> [] \<longrightarrow>
        fst (parseMessages child msgSet) =
          child\<lparr>offset := cm_Offset (last (snd (parseMessages child msgSet))) + 1\<rparr>"
    by (simp add: parseMessages_eq offsetAfter_last last_map legacyMessage_def split_def)
  have batch: "snd (parseRecords child batch) =
     map (recordMessage child batch)
       (delivered (recordOffset batch) (offset child) (Records batch))"
    by (simp add: parseRecords_eq)
  have set: "snd (parseMessages child msgSet) =
       map (legacyMessage child) (delivered legacyOffset (offset child) (legacyItems msgSet))"
    by (simp add: parseMessages_eq)
  have nil: "parseRecordsSet child [] aborted pending messages =
       (child, aborted, pending, Inr messages)"
    by simp
  note s1 = S1_committed S1_uncommitted S1_legacy
  show ?thesis
    using batch records records_last set legacy legacy_last nil
      parseRecordsSet_legacy [of child msgSet rest aborted pending messages]
      parseRecordsSet_emitted [of records child aborted pending rest messages]
      parseResponse_records [of response child block n]
      parseResponse_delivered [of child response out] s1
    by blast
qed

theorem offset_filter_and_advance_witness:
  "map cm_Offset (snd (parseRecords (scenario_child 42) (scenario_batch 40 43 (- 1) False [0, 1, 2, 3])))
     = [42, 43]
   \<and> offset (fst (parseRecords (scenario_child 42) (scenario_batch 40 43 (- 1) False [0, 1, 2, 3]))) = 44"
proof -
  let ?child = "scenario_child 42" and ?batch = "scenario_batch 40 43 (- 1) False [0, 1, 2, 3]"
  note t = offset_filter_and_advance [where child = ?child and batch = ?batch]
  have d: "delivered (recordOffset ?batch) (offset ?child) (Records ?batch)
             = [scenario_record 2, scenario_record 3]"
    by (simp add: scenario_defs recordOffset_def)
  have m: "snd (parseRecords ?child ?batch)
          = map (recordMessage ?child ?batch) [scenario_record 2, scenario_record 3]"
    using t [THEN conjunct1] d by simp
  then have nonempty: "snd (parseRecords ?child ?batch) \<noteq> []"
    by simp
  have "fst (parseRecords ?child ?batch) =
      ?child\<lparr>offset := cm_Offset (last (snd (parseRecords ?child ?batch))) + 1\<rparr>"
    using t [THEN conjunct2, THEN conjunct2, THEN conjunct1] nonempty by blast
  then show ?thesis
    using m by (simp add: recordMessage_def recordOffset_def scenario_defs)
qed

end
